theory Spec2Isabelle
  imports Complex_Main "HOL-Library.Word"
begin

section \<open>Rolling activity statistics of the Conduit in-proxy manager\<close>

text \<open>
  The development embeds the Swift types \<open>ActivitySeries\<close>, \<open>ActivityStats\<close> and
  \<open>ConduitManager\<close>, the bridge type \<open>ReactInProxyActivityStats\<close> with its
  \<open>asDictionary\<close> encoders, and the receiving zod schema \<open>InProxyActivityStatsSchema\<close>.

  Conventions of the embedding:
  \<^item> Swift \<open>Int\<close> values are HOL integers; \<open>UInt64\<close> is \<open>64 word\<close>.
  \<^item> A Swift runtime trap (failed precondition, arithmetic overflow, a conversion that
    cannot represent its argument) is a value \<open>Inl t\<close> of the result type \<open>trap + 'a\<close>.
  \<^item> A \<open>Deque\<close> is a list, oldest element first.
  \<^item> A \<open>TimeInterval\<close> is a rational number of seconds and the clock reading
    \<open>Date().timeIntervalSinceReferenceDate\<close> is an argument \<open>now\<close>; the rounding error of
    \<open>Double\<close> subtraction and multiplication is not modelled.
\<close>

subsection \<open>Traps\<close>

datatype trap =
    NegativeCount
  | RemoveFirstOfEmpty
  | DivisionByZero
  | NotRepresentable
  | ArithmeticOverflow
  | UnwrappedNil

text \<open>Sequencing of two steps, the second of which is skipped when the first traps.\<close>

definition andThen :: "trap + 'a \<Rightarrow> ('a \<Rightarrow> trap + 'b) \<Rightarrow> trap + 'b" where
  "andThen r f = (case r of Inl t \<Rightarrow> Inl t | Inr x \<Rightarrow> f x)"

subsection \<open>ActivitySeries\<close>

record ActivitySeries =
  msBucketPeriod :: "64 word"
  numBuckets :: int
  bytesUp :: "int list"
  bytesDown :: "int list"
  connectingClients :: "int list"
  connectedClients :: "int list"

text \<open>\<open>Deque(repeating: v, count: n)\<close> requires a count that is not negative.\<close>

definition Deque_repeating :: "int \<Rightarrow> int \<Rightarrow> trap + int list" where
  "Deque_repeating v n = (if n < 0 then Inl NegativeCount else Inr (replicate (nat n) v))"

text \<open>\<open>Deque.removeFirst()\<close> requires a deque that is not empty.\<close>

definition removeFirst :: "int list \<Rightarrow> trap + int list" where
  "removeFirst xs = (case xs of [] \<Rightarrow> Inl RemoveFirstOfEmpty | x # rest \<Rightarrow> Inr rest)"

definition Deque_append :: "int list \<Rightarrow> int \<Rightarrow> int list" where
  "Deque_append xs v = xs @ [v]"

text \<open>The initialiser fills \<open>bytesDown\<close>, \<open>bytesUp\<close>, \<open>connectingClients\<close>,
  \<open>connectedClients\<close> in this order.\<close>

definition ActivitySeries_init :: "64 word \<Rightarrow> int \<Rightarrow> trap + ActivitySeries" where
  "ActivitySeries_init period n =
     andThen (Deque_repeating 0 n) (\<lambda>bd.
     andThen (Deque_repeating 0 n) (\<lambda>bu.
     andThen (Deque_repeating 0 n) (\<lambda>cg.
     andThen (Deque_repeating 0 n) (\<lambda>cd.
       Inr \<lparr> msBucketPeriod = period, numBuckets = n,
             bytesUp = bu, bytesDown = bd,
             connectingClients = cg, connectedClients = cd \<rparr>))))"

text \<open>In \<open>pushDataPoints\<close> each \<open>removeFirst\<close> is followed by the \<open>append\<close> on the same
  channel, in the order \<open>bytesUp\<close>, \<open>bytesDown\<close>, \<open>connectingClients\<close>,
  \<open>connectedClients\<close>. An \<open>append\<close> cannot trap, so the four removals are sequenced and
  the four appended channels written at the end.\<close>

definition pushDataPoints ::
  "ActivitySeries \<Rightarrow> int \<Rightarrow> int \<Rightarrow> int \<Rightarrow> int \<Rightarrow> trap + ActivitySeries" where
  "pushDataPoints s bu bd cg cd =
     andThen (removeFirst (bytesUp s)) (\<lambda>r1.
     andThen (removeFirst (bytesDown s)) (\<lambda>r2.
     andThen (removeFirst (connectingClients s)) (\<lambda>r3.
     andThen (removeFirst (connectedClients s)) (\<lambda>r4.
       Inr (s \<lparr> bytesUp := Deque_append r1 bu, bytesDown := Deque_append r2 bd,
                connectingClients := Deque_append r3 cg,
                connectedClients := Deque_append r4 cd \<rparr>)))))"

text \<open>\<open>(1...k).forEach { _ in pushDataPoints(0, 0, 0, 0) }\<close>\<close>

fun pushZeros :: "nat \<Rightarrow> ActivitySeries \<Rightarrow> trap + ActivitySeries" where
  "pushZeros 0 s = Inr s"
| "pushZeros (Suc k) s = andThen (pushDataPoints s 0 0 0 0) (pushZeros k)"

text \<open>\<open>Int(x)\<close> for a \<open>UInt64\<close> traps above \<open>Int.max\<close>.\<close>

definition Int_of_UInt64 :: "64 word \<Rightarrow> trap + int" where
  "Int_of_UInt64 w = (if uint w < 2 ^ 63 then Inr (uint w) else Inl NotRepresentable)"

text \<open>The value of the local variable \<open>elapsedBucketCount\<close> of \<open>updateSeries\<close> when
  the zero-fill loop is reached. Unsigned division traps on a zero divisor.\<close>

definition elapsedBucketCount :: "ActivitySeries \<Rightarrow> 64 word \<Rightarrow> trap + int" where
  "elapsedBucketCount s msSinceUpdate =
     (if msBucketPeriod s = 0 then Inl DivisionByZero
      else andThen (Int_of_UInt64 (msSinceUpdate div msBucketPeriod s)) (\<lambda>q.
             Inr (if q - 1 > numBuckets s then numBuckets s else q - 1)))"

definition updateSeries ::
  "ActivitySeries \<Rightarrow> 64 word \<Rightarrow> int \<Rightarrow> int \<Rightarrow> int \<Rightarrow> int \<Rightarrow> trap + ActivitySeries" where
  "updateSeries s msSinceUpdate bu bd cg cd =
     andThen (elapsedBucketCount s msSinceUpdate) (\<lambda>e.
     andThen (if e > 0 then pushZeros (nat e) s else Inr s) (\<lambda>s'.
       pushDataPoints s' bu bd cg cd))"

subsection \<open>ActivityStats\<close>

record ActivityStats =
  startTime :: rat
  lastUpdate :: rat
  totalBytesUp :: "64 word"
  totalBytesDown :: "64 word"
  currentConnectingClients :: int
  currentConnectedClients :: int
  seriesFast :: ActivitySeries

text \<open>\<open>UInt64(i)\<close> for an \<open>Int\<close> traps on a negative argument.\<close>

definition UInt64_of_Int :: "int \<Rightarrow> trap + 64 word" where
  "UInt64_of_Int i = (if 0 \<le> i \<and> i < 2 ^ 64 then Inr (word_of_int i) else Inl NotRepresentable)"

text \<open>\<open>+\<close> and \<open>*\<close> on \<open>UInt64\<close> trap on overflow.\<close>

definition UInt64_add :: "64 word \<Rightarrow> 64 word \<Rightarrow> trap + 64 word" where
  "UInt64_add a b = (if uint a + uint b < 2 ^ 64 then Inr (a + b) else Inl ArithmeticOverflow)"

definition UInt64_mul :: "64 word \<Rightarrow> 64 word \<Rightarrow> trap + 64 word" where
  "UInt64_mul a b = (if uint a * uint b < 2 ^ 64 then Inr (a * b) else Inl ArithmeticOverflow)"

text \<open>\<open>round\<close> on \<open>Double\<close> rounds to the nearest integer, halfway cases away from zero.\<close>

definition round_Double :: "rat \<Rightarrow> rat" where
  "round_Double x = (if 0 \<le> x then of_int \<lfloor>x + 1 / 2\<rfloor> else - of_int \<lfloor>- x + 1 / 2\<rfloor>)"

text \<open>\<open>UInt64(x)\<close> for a \<open>Double\<close> truncates towards zero and traps when the truncated
  value is not representable.\<close>

definition UInt64_of_Double :: "rat \<Rightarrow> trap + 64 word" where
  "UInt64_of_Double x =
     (if x \<le> - 1 \<or> 2 ^ 64 \<le> x then Inl NotRepresentable
      else Inr (word_of_int (if 0 \<le> x then \<lfloor>x\<rfloor> else \<lceil>x\<rceil>)))"

definition msElapsedTime :: "ActivityStats \<Rightarrow> trap + 64 word" where
  "msElapsedTime s = UInt64_of_Double ((lastUpdate s - startTime s) * 1000)"

definition ActivityStats_init :: "rat \<Rightarrow> trap + ActivityStats" where
  "ActivityStats_init now =
     andThen (ActivitySeries_init 1000 288) (\<lambda>series.
       Inr \<lparr> startTime = now, lastUpdate = now,
             totalBytesUp = 0, totalBytesDown = 0,
             currentConnectingClients = 0, currentConnectedClients = 0,
             seriesFast = series \<rparr>)"

text \<open>The value of the local constant \<open>msSinceUpdate\<close> of \<open>update\<close>.\<close>

definition msSinceUpdate :: "rat \<Rightarrow> rat \<Rightarrow> trap + 64 word" where
  "msSinceUpdate now previous =
     andThen (UInt64_of_Double (round_Double (now - previous))) (\<lambda>r. UInt64_mul r 1000)"

definition update ::
  "ActivityStats \<Rightarrow> rat \<Rightarrow> int \<Rightarrow> int \<Rightarrow> int \<Rightarrow> int \<Rightarrow> trap + ActivityStats" where
  "update s now bu bd cg cd =
     andThen (UInt64_of_Int bu) (\<lambda>u.
     andThen (UInt64_add (totalBytesUp s) u) (\<lambda>tu.
     andThen (UInt64_of_Int bd) (\<lambda>d.
     andThen (UInt64_add (totalBytesDown s) d) (\<lambda>td.
     andThen (msSinceUpdate now (lastUpdate s)) (\<lambda>ms.
     andThen (updateSeries (seriesFast s) ms bu bd cg cd) (\<lambda>series.
       Inr (s \<lparr> totalBytesUp := tu, totalBytesDown := td,
                currentConnectingClients := cg, currentConnectedClients := cd,
                seriesFast := series, lastUpdate := now \<rparr>)))))))"

text \<open>A run of \<open>update\<close> calls, each with its clock reading and its four arguments
  \<open>(now, bytesUp, bytesDown, connectingClients, connectedClients)\<close>.\<close>

fun updates ::
  "ActivityStats \<Rightarrow> (rat \<times> int \<times> int \<times> int \<times> int) list \<Rightarrow> trap + ActivityStats" where
  "updates s [] = Inr s"
| "updates s ((now, bu, bd, cg, cd) # ticks) =
     andThen (update s now bu bd cg cd) (\<lambda>s'. updates s' ticks)"

subsection \<open>ConduitManager\<close>

text \<open>
  The actor is a state record and each of its methods a function on it. The suspension
  points of the \<open>async\<close> methods are not modelled: a method runs from entry to exit.
  What the tunnel library reports is an argument: \<open>success\<close> is the result of
  \<open>psiphonTunnel.start\<close>, \<open>reach\<close> a reading of \<open>isInternetReachable\<close>. The calls made
  on the \<open>Listener\<close> are recorded in \<open>listenerCalls\<close>, oldest first.
\<close>

datatype ConduitStatus = Starting | Started | Stopping | Stopped

text \<open>\<open>ConduitParams\<close>, with the fields that \<open>getPsiphonConfig\<close> reads.\<close>

record ConduitParams =
  privateKey :: "string option"
  maxClients :: int
  limitUpstream :: int
  limitDownstream :: int

datatype ListenerCall =
    OnConduitStatusUpdate ConduitStatus "bool option"
  | OnInproxyProxyActivity ActivityStats
  | OnInproxyMustUpgrade

text \<open>\<open>psiphonTunnelListener\<close> is \<open>None\<close> while \<open>nil\<close>, and otherwise holds the
  listener's \<open>dynamicConfigs?.conduitParams\<close>; \<open>psiphonTunnel\<close> tells whether the
  wrapper has been created.\<close>

record ConduitManager =
  psiphonTunnelListener :: "ConduitParams option option"
  psiphonTunnel :: bool
  conduitStatus :: ConduitStatus
  activityStats :: "ActivityStats option"
  listenerCalls :: "ListenerCall list"

definition ConduitManager_init :: ConduitManager where
  "ConduitManager_init =
     \<lparr> psiphonTunnelListener = None, psiphonTunnel = False,
       conduitStatus = Stopped, activityStats = None, listenerCalls = [] \<rparr>"

text \<open>\<open>setConduitStatus\<close> unwraps \<open>psiphonTunnel!\<close> to read the reachability.\<close>

definition setConduitStatus ::
  "ConduitManager \<Rightarrow> ConduitStatus \<Rightarrow> bool option \<Rightarrow> trap + ConduitManager" where
  "setConduitStatus m status reach =
     (if psiphonTunnel m
      then Inr (m \<lparr> conduitStatus := status,
                    listenerCalls := listenerCalls m @ [OnConduitStatusUpdate status reach] \<rparr>)
      else Inl UnwrappedNil)"

definition isEqualConduitParams :: "ConduitManager \<Rightarrow> ConduitParams \<Rightarrow> trap + bool" where
  "isEqualConduitParams m params =
     (case psiphonTunnelListener m of
        None \<Rightarrow> Inl UnwrappedNil
      | Some configs \<Rightarrow> Inr (configs = Some params))"

text \<open>A call of \<open>startConduit\<close> either returns or throws \<open>Err\<close>; both leave a manager.
  Its steps: return while a start is in progress; create the tunnel and its listener when
  there is none; return when a started session is asked to restart with equal parameters;
  set the status \<open>starting\<close>; stop the tunnel, set \<open>activityStats\<close> to \<open>.none\<close> and store
  the parameters in the listener; start the tunnel; on success set the status \<open>started\<close>,
  store a new \<open>ActivityStats()\<close> and report it to the listener; otherwise set the status
  \<open>stopped\<close> and throw.\<close>

datatype StartResult = Returned ConduitManager | Threw ConduitManager

definition startConduit ::
  "ConduitManager \<Rightarrow> ConduitParams \<Rightarrow> bool option \<Rightarrow> bool \<Rightarrow> bool option \<Rightarrow> rat
     \<Rightarrow> trap + StartResult" where
  "startConduit m params reach1 success reach2 now =
     (if conduitStatus m = Starting then Inr (Returned m)
      else
        let m1 = (if \<not> psiphonTunnel m
                  then m \<lparr> psiphonTunnelListener := Some None, psiphonTunnel := True \<rparr>
                  else m)
        in andThen (if conduitStatus m1 = Started then isEqualConduitParams m1 params
                    else Inr False) (\<lambda>denied.
           if denied then Inr (Returned m1)
           else
             andThen (setConduitStatus m1 Starting reach1) (\<lambda>m2.
             andThen (case psiphonTunnelListener m2 of
                        None \<Rightarrow> Inl UnwrappedNil
                      | Some configs \<Rightarrow>
                          Inr (m2 \<lparr> activityStats := None,
                                    psiphonTunnelListener := Some (Some params) \<rparr>)) (\<lambda>m3.
               if success
               then andThen (setConduitStatus m3 Started reach2) (\<lambda>m4.
                    andThen (ActivityStats_init now) (\<lambda>stats.
                      Inr (Returned
                        (m4 \<lparr> activityStats := Some stats,
                              listenerCalls :=
                                listenerCalls m4 @ [OnInproxyProxyActivity stats] \<rparr>))))
               else andThen (setConduitStatus m3 Stopped reach2) (\<lambda>m4.
                      Inr (Threw m4))))))"

definition stopConduit ::
  "ConduitManager \<Rightarrow> bool option \<Rightarrow> bool option \<Rightarrow> trap + ConduitManager" where
  "stopConduit m reach1 reach2 =
     (if conduitStatus m \<noteq> Started then Inr m
      else if \<not> psiphonTunnel m then Inr m
      else andThen (setConduitStatus m Stopping reach1) (\<lambda>m1.
           andThen (setConduitStatus m1 Stopped reach2) (\<lambda>m2.
             Inr (m2 \<lparr> activityStats := None \<rparr>))))"

definition updateActivityStats ::
  "ConduitManager \<Rightarrow> rat \<Rightarrow> int \<Rightarrow> int \<Rightarrow> int \<Rightarrow> int \<Rightarrow> trap + ConduitManager" where
  "updateActivityStats m now cg cd bu bd =
     (case activityStats m of
        None \<Rightarrow> Inr m
      | Some stats \<Rightarrow>
          andThen (update stats now bu bd cg cd) (\<lambda>stats'.
            Inr (m \<lparr> activityStats := Some stats',
                     listenerCalls := listenerCalls m @ [OnInproxyProxyActivity stats'] \<rparr>)))"

subsection \<open>The bridge to JavaScript\<close>

text \<open>
  The values that cross the React Native bridge: numbers, strings, arrays and
  dictionaries. A dictionary is an association list read with \<open>map_of\<close>. Numbers are
  integers: the conversion to a JavaScript number is taken to be exact (it is for
  magnitudes up to \<open>2 ^ 53\<close>).
\<close>

datatype RNValue =
    RNNull
  | RNNumber int
  | RNString string
  | RNArray "RNValue list"
  | RNDict "(string \<times> RNValue) list"







subsection \<open>The receiving schema\<close>






subsection \<open>Auxiliary notions for the properties\<close>

text \<open>A series whose four channels all hold \<open>numBuckets\<close> values, with at least one
  bucket.\<close>

definition fixedLength :: "ActivitySeries \<Rightarrow> bool" where
  "fixedLength s \<longleftrightarrow>
     0 < numBuckets s \<and>
     length (bytesUp s) = nat (numBuckets s) \<and>
     length (bytesDown s) = nat (numBuckets s) \<and>
     length (connectingClients s) = nat (numBuckets s) \<and>
     length (connectedClients s) = nat (numBuckets s)"

text \<open>The window \<open>xs\<close> after the values \<open>vs\<close> have been pushed one by one: the values
  are appended and as many of the oldest entries dropped.\<close>

definition pushed :: "int list \<Rightarrow> int list \<Rightarrow> int list" where
  "pushed xs vs = drop (length vs) (xs @ vs)"

text \<open>The number of zero-filled pushes that \<open>updateSeries\<close> makes when the conversion
  to \<open>Int\<close> is representable.\<close>

definition gapBuckets :: "ActivitySeries \<Rightarrow> 64 word \<Rightarrow> nat" where
  "gapBuckets s ms = nat (min (numBuckets s) (uint (ms div msBucketPeriod s) - 1))"

text \<open>The series with every bucket of every channel set to zero.\<close>

definition zeroFilled :: "ActivitySeries \<Rightarrow> ActivitySeries" where
  "zeroFilled s =
     s \<lparr> bytesUp := replicate (nat (numBuckets s)) 0,
         bytesDown := replicate (nat (numBuckets s)) 0,
         connectingClients := replicate (nat (numBuckets s)) 0,
         connectedClients := replicate (nat (numBuckets s)) 0 \<rparr>"

text \<open>The byte counts of a tick \<open>(now, bytesUp, bytesDown, connectingClients,
  connectedClients)\<close> of a run.\<close>

definition tickBytesUp :: "rat \<times> int \<times> int \<times> int \<times> int \<Rightarrow> int" where
  "tickBytesUp tick = fst (snd tick)"

definition tickBytesDown :: "rat \<times> int \<times> int \<times> int \<times> int \<Rightarrow> int" where
  "tickBytesDown tick = fst (snd (snd tick))"

text \<open>Stats whose series has the configuration that \<open>ActivityStats\<close> gives it: 288
  buckets of 1000 ms, every channel at that length.\<close>

definition configured :: "ActivityStats \<Rightarrow> bool" where
  "configured s \<longleftrightarrow>
     msBucketPeriod (seriesFast s) = 1000 \<and> numBuckets (seriesFast s) = 288 \<and>
     fixedLength (seriesFast s)"

section \<open>Properties\<close>

subsection \<open>Sequencing\<close>

lemma andThen_Inl: "andThen (Inl t) f = Inl t"
  by (simp add: andThen_def)

lemma andThen_Inr: "andThen (Inr x) f = f x"
  by (simp add: andThen_def)

lemma andThen_eq_Inr:
  "andThen r f = Inr y \<longleftrightarrow> (\<exists>x. r = Inr x \<and> f x = Inr y)"
  by (cases r) (simp_all add: andThen_def)

subsection \<open>Pushing into a series\<close>

lemma length_pushed: "length (pushed xs vs) = length xs"
  by (simp add: pushed_def)

lemma removeFirst_nonempty: "xs \<noteq> [] \<Longrightarrow> removeFirst xs = Inr (tl xs)"
  by (cases xs) (simp_all add: removeFirst_def)

lemma append_tl: "xs \<noteq> [] \<Longrightarrow> Deque_append (tl xs) v = pushed xs [v]"
  by (cases xs) (simp_all add: Deque_append_def pushed_def)

lemma pushed_pushed: "pushed (pushed xs us) vs = pushed xs (us @ vs)"
proof -
  have "drop (length us) (xs @ us) @ vs = drop (length us) ((xs @ us) @ vs)"
    by simp
  then have "drop (length vs) (drop (length us) (xs @ us) @ vs) =
             drop (length vs) (drop (length us) ((xs @ us) @ vs))"
    by (rule arg_cong)
  then show ?thesis
    by (simp add: pushed_def add.commute del: drop_append)
qed

lemma pushDataPoints_fixed:
  assumes "fixedLength s"
  shows "pushDataPoints s bu bd cg cd =
           Inr (s \<lparr> bytesUp := pushed (bytesUp s) [bu],
                    bytesDown := pushed (bytesDown s) [bd],
                    connectingClients := pushed (connectingClients s) [cg],
                    connectedClients := pushed (connectedClients s) [cd] \<rparr>)"
proof -
  from assms have "bytesUp s \<noteq> []" "bytesDown s \<noteq> []"
    "connectingClients s \<noteq> []" "connectedClients s \<noteq> []"
    by (auto simp: fixedLength_def)
  then show ?thesis
    by (simp add: pushDataPoints_def removeFirst_nonempty append_tl andThen_Inr)
qed

lemma pushZeros_fixed:
  "fixedLength s \<Longrightarrow>
   pushZeros k s =
     Inr (s \<lparr> bytesUp := pushed (bytesUp s) (replicate k 0),
              bytesDown := pushed (bytesDown s) (replicate k 0),
              connectingClients := pushed (connectingClients s) (replicate k 0),
              connectedClients := pushed (connectedClients s) (replicate k 0) \<rparr>)"
proof (induction k arbitrary: s)
  case 0
  then show ?case by (simp add: pushed_def)
next
  case (Suc k)
  let ?s1 = "s \<lparr> bytesUp := pushed (bytesUp s) [0],
                  bytesDown := pushed (bytesDown s) [0],
                  connectingClients := pushed (connectingClients s) [0],
                  connectedClients := pushed (connectedClients s) [0] \<rparr>"
  have ne: "bytesUp s \<noteq> []" "bytesDown s \<noteq> []"
    "connectingClients s \<noteq> []" "connectedClients s \<noteq> []"
    using Suc.prems by (auto simp: fixedLength_def)
  have fixed1: "fixedLength ?s1"
    using Suc.prems by (simp add: fixedLength_def length_pushed)
  show ?case
    by (simp add: pushDataPoints_fixed [OF Suc.prems] andThen_Inr Suc.IH [OF fixed1]
        pushed_pushed)
qed

subsection \<open>Zero-gap fill\<close>


subsection \<open>The closed form of \<open>updateSeries\<close>\<close>

lemma elapsedBucketCount_value:
  assumes "msBucketPeriod s \<noteq> 0" and "uint (ms div msBucketPeriod s) < 2 ^ 63"
  shows "elapsedBucketCount s ms =
           Inr (min (numBuckets s) (uint (ms div msBucketPeriod s) - 1))"
  using assms
  by (simp add: elapsedBucketCount_def Int_of_UInt64_def andThen_Inr min_def)

lemma updateSeries_fixed:
  assumes "fixedLength s" and "msBucketPeriod s \<noteq> 0"
    and "uint (ms div msBucketPeriod s) < 2 ^ 63"
  shows "updateSeries s ms bu bd cg cd =
           Inr (s \<lparr> bytesUp := pushed (bytesUp s) (replicate (gapBuckets s ms) 0 @ [bu]),
                    bytesDown := pushed (bytesDown s) (replicate (gapBuckets s ms) 0 @ [bd]),
                    connectingClients :=
                      pushed (connectingClients s) (replicate (gapBuckets s ms) 0 @ [cg]),
                    connectedClients :=
                      pushed (connectedClients s) (replicate (gapBuckets s ms) 0 @ [cd]) \<rparr>)"
proof -
  let ?e = "min (numBuckets s) (uint (ms div msBucketPeriod s) - 1)"
  let ?s1 = "s \<lparr> bytesUp := pushed (bytesUp s) (replicate (nat ?e) 0),
                  bytesDown := pushed (bytesDown s) (replicate (nat ?e) 0),
                  connectingClients := pushed (connectingClients s) (replicate (nat ?e) 0),
                  connectedClients := pushed (connectedClients s) (replicate (nat ?e) 0) \<rparr>"
  have zeros: "(if ?e > 0 then pushZeros (nat ?e) s else Inr s) = Inr ?s1"
  proof (cases "?e > 0")
    case True
    then show ?thesis by (simp add: pushZeros_fixed [OF assms(1)])
  next
    case False
    then have "nat ?e = 0" by linarith
    then show ?thesis unfolding if_not_P [OF False] by (simp add: pushed_def)
  qed
  have fixed1: "fixedLength ?s1"
    using assms(1) by (simp add: fixedLength_def length_pushed)
  show ?thesis
    unfolding updateSeries_def elapsedBucketCount_value [OF assms(2,3)] andThen_Inr zeros
    by (simp add: pushDataPoints_fixed [OF fixed1] pushed_pushed gapBuckets_def)
qed

lemma pushed_full:
  assumes "length xs = n" and "0 < n"
  shows "pushed xs (replicate n 0 @ [v]) = replicate (n - 1) 0 @ [v]"
proof -
  have "drop (Suc n) (xs @ replicate n 0 @ [v]) = drop 1 (replicate n 0 @ [v])"
    using assms by simp
  also have "\<dots> = replicate (n - 1) 0 @ [v]"
    using assms(2) by (cases n) simp_all
  finally show ?thesis by (simp add: pushed_def)
qed

subsection \<open>Clamped gap\<close>

text \<open>
  Claim C2. When the elapsed time implies more gap buckets than the series holds
  (\<open>msSinceUpdate div msBucketPeriod - 1 > numBuckets\<close>), the gap count is clamped to
  \<open>numBuckets\<close>, and the call has the result of pushing the observation into the series
  with all buckets zeroed: every bucket of every channel is 0 except the newest, which
  holds the observed value. The series has its channels at length \<open>numBuckets > 0\<close>, the
  period is not zero, and the quotient is representable as an \<open>Int\<close> (it always is
  for a period of at least 2 ms).
\<close>

theorem clamped_gap_overflow:
  assumes "fixedLength s" and "msBucketPeriod s \<noteq> 0"
    and "uint (ms div msBucketPeriod s) < 2 ^ 63"
    and "numBuckets s < uint (ms div msBucketPeriod s) - 1"
  shows "elapsedBucketCount s ms = Inr (numBuckets s) \<and>
         updateSeries s ms bu bd cg cd = pushDataPoints (zeroFilled s) bu bd cg cd \<and>
         updateSeries s ms bu bd cg cd =
           Inr (s \<lparr> bytesUp := replicate (nat (numBuckets s) - 1) 0 @ [bu],
                    bytesDown := replicate (nat (numBuckets s) - 1) 0 @ [bd],
                    connectingClients := replicate (nat (numBuckets s) - 1) 0 @ [cg],
                    connectedClients := replicate (nat (numBuckets s) - 1) 0 @ [cd] \<rparr>)"
proof -
  have gap: "gapBuckets s ms = nat (numBuckets s)"
    using assms(4) by (simp add: gapBuckets_def min_def)
  have pos: "0 < nat (numBuckets s)"
    using assms(1) by (simp add: fixedLength_def)
  have len: "length (bytesUp s) = nat (numBuckets s)"
    "length (bytesDown s) = nat (numBuckets s)"
    "length (connectingClients s) = nat (numBuckets s)"
    "length (connectedClients s) = nat (numBuckets s)"
    using assms(1) by (simp_all add: fixedLength_def)
  have count: "elapsedBucketCount s ms = Inr (numBuckets s)"
    using assms(4) by (simp add: elapsedBucketCount_value [OF assms(2,3)] min_def)
  have result: "updateSeries s ms bu bd cg cd =
           Inr (s \<lparr> bytesUp := replicate (nat (numBuckets s) - 1) 0 @ [bu],
                    bytesDown := replicate (nat (numBuckets s) - 1) 0 @ [bd],
                    connectingClients := replicate (nat (numBuckets s) - 1) 0 @ [cg],
                    connectedClients := replicate (nat (numBuckets s) - 1) 0 @ [cd] \<rparr>)"
    by (simp add: updateSeries_fixed [OF assms(1,2,3)] gap pushed_full [OF _ pos] len)
  have fixedz: "fixedLength (zeroFilled s)"
    using assms(1) by (simp add: fixedLength_def zeroFilled_def)
  have one: "pushed (replicate n 0) [v] = replicate (n - 1) 0 @ [v]" if "0 < n" for n v
    using that by (cases n) (simp_all add: pushed_def)
  have zero: "pushDataPoints (zeroFilled s) bu bd cg cd =
           Inr (s \<lparr> bytesUp := replicate (nat (numBuckets s) - 1) 0 @ [bu],
                    bytesDown := replicate (nat (numBuckets s) - 1) 0 @ [bd],
                    connectingClients := replicate (nat (numBuckets s) - 1) 0 @ [cg],
                    connectedClients := replicate (nat (numBuckets s) - 1) 0 @ [cd] \<rparr>)"
    unfolding pushDataPoints_fixed [OF fixedz] by (simp add: zeroFilled_def one [OF pos])
  show ?thesis using count result zero by simp
qed

theorem clamped_gap_overflow_witness:
  "fixedLength \<lparr> msBucketPeriod = 1000, numBuckets = 2,
       bytesUp = [7, 8], bytesDown = [1, 2],
       connectingClients = [3, 4], connectedClients = [5, 6] \<rparr> \<and>
   (1000 :: 64 word) \<noteq> 0 \<and>
   uint ((5000 :: 64 word) div 1000) < 2 ^ 63 \<and>
   2 < uint ((5000 :: 64 word) div 1000) - 1 \<and>
   updateSeries \<lparr> msBucketPeriod = 1000, numBuckets = 2,
       bytesUp = [7, 8], bytesDown = [1, 2],
       connectingClients = [3, 4], connectedClients = [5, 6] \<rparr> 5000 9 10 11 12 =
     Inr \<lparr> msBucketPeriod = 1000, numBuckets = 2,
           bytesUp = [0, 9], bytesDown = [0, 10],
           connectingClients = [0, 11], connectedClients = [0, 12] \<rparr>"
proof -
  let ?s = "\<lparr> msBucketPeriod = 1000, numBuckets = 2,
       bytesUp = [7, 8], bytesDown = [1, 2],
       connectingClients = [3, 4], connectedClients = [5, 6] \<rparr>"
  have fixed: "fixedLength ?s"
    by (simp add: fixedLength_def)
  have period: "msBucketPeriod ?s \<noteq> 0"
    by simp
  have fits: "uint ((5000 :: 64 word) div msBucketPeriod ?s) < 2 ^ 63"
    by simp
  have more: "numBuckets ?s < uint ((5000 :: 64 word) div msBucketPeriod ?s) - 1"
    by simp
  from clamped_gap_overflow [OF fixed period fits more, of 9 10 11 12]
  have "updateSeries ?s 5000 9 10 11 12 =
          Inr (?s \<lparr> bytesUp := replicate (nat (numBuckets ?s) - 1) 0 @ [9],
                   bytesDown := replicate (nat (numBuckets ?s) - 1) 0 @ [10],
                   connectingClients := replicate (nat (numBuckets ?s) - 1) 0 @ [11],
                   connectedClients := replicate (nat (numBuckets ?s) - 1) 0 @ [12] \<rparr>)"
    by (elim conjE)
  then show ?thesis
    using fixed by simp
qed

subsection \<open>Conversions and the elapsed time\<close>

lemma UInt64_of_Int_InrD:
  "UInt64_of_Int i = Inr w \<Longrightarrow> 0 \<le> i \<and> i < 2 ^ 64 \<and> uint w = i"
  by (auto simp: UInt64_of_Int_def uint_word_of_int take_bit_int_eq_self split: if_splits)

lemma UInt64_add_InrD:
  "UInt64_add a b = Inr c \<Longrightarrow> uint c = uint a + uint b \<and> c = a + b"
  by (auto simp: UInt64_add_def uint_word_ariths take_bit_int_eq_self split: if_splits)

lemma UInt64_mul_InrD:
  "UInt64_mul a b = Inr c \<Longrightarrow> uint c = uint a * uint b \<and> c = a * b"
  by (auto simp: UInt64_mul_def uint_word_ariths take_bit_int_eq_self split: if_splits)

lemma UInt64_of_Double_of_int:
  "0 \<le> r \<Longrightarrow> r < 2 ^ 64 \<Longrightarrow> UInt64_of_Double (of_int r) = Inr (word_of_int r)"
proof -
  assume r: "0 \<le> r" "r < 2 ^ 64"
  have "\<not> (of_int r :: rat) \<le> - 1"
    using r(1) by linarith
  moreover have "\<not> (2 ^ 64 :: rat) \<le> of_int r"
  proof -
    have "(of_int r :: rat) < of_int (2 ^ 64)"
      using r(2) by (simp only: of_int_less_iff)
    then show ?thesis by simp
  qed
  ultimately show ?thesis
    using r(1) by (simp add: UInt64_of_Double_def)
qed

lemma UInt64_of_Double_of_int_InrD:
  assumes "UInt64_of_Double (of_int r) = Inr w"
  shows "0 \<le> r \<and> r < 2 ^ 64 \<and> w = word_of_int r"
proof -
  from assms have a: "\<not> (of_int r :: rat) \<le> - 1" and b: "\<not> (2 ^ 64 :: rat) \<le> of_int r"
    by (auto simp: UInt64_of_Double_def split: if_splits)
  from a have "(of_int (- 1) :: rat) < of_int r" by simp
  then have "- 1 < r" by (simp only: of_int_less_iff)
  then have r0: "0 \<le> r" by simp
  from b have "(of_int r :: rat) < of_int (2 ^ 64)" by simp
  then have r1: "r < 2 ^ 64" by (simp only: of_int_less_iff)
  from UInt64_of_Double_of_int [OF r0 r1] assms r0 r1 show ?thesis by simp
qed

lemma uint_seconds: "0 \<le> r \<Longrightarrow> r < 2 ^ 64 \<Longrightarrow> uint (word_of_int r :: 64 word) = r"
  by (simp add: uint_word_of_int take_bit_int_eq_self)

lemma msSinceUpdate_value:
  assumes "round_Double (now - previous) = of_int r" and "0 \<le> r" and "r * 1000 < 2 ^ 64"
  shows "msSinceUpdate now previous = Inr (word_of_int (r * 1000))"
proof -
  have small: "r < 2 ^ 64" using assms(2,3) by linarith
  have "uint (word_of_int r :: 64 word) * uint (1000 :: 64 word) < 2 ^ 64"
    using assms(3) by (simp add: uint_seconds [OF assms(2) small])
  then have "UInt64_mul (word_of_int r) 1000 = Inr (word_of_int r * 1000)"
    by (simp add: UInt64_mul_def)
  then show ?thesis
    by (simp add: msSinceUpdate_def assms(1) UInt64_of_Double_of_int [OF assms(2) small]
        andThen_Inr)
qed

lemma msSinceUpdate_InrD:
  assumes "msSinceUpdate now previous = Inr ms" and "round_Double (now - previous) = of_int r"
  shows "0 \<le> r \<and> r * 1000 < 2 ^ 64 \<and> uint ms = r * 1000"
proof -
  from assms obtain w where w: "UInt64_of_Double (of_int r) = Inr w"
    and mul: "UInt64_mul w 1000 = Inr ms"
    by (auto simp: msSinceUpdate_def andThen_eq_Inr)
  from UInt64_of_Double_of_int_InrD [OF w]
  have r: "0 \<le> r" "r < 2 ^ 64" "w = word_of_int r" by simp_all
  have "uint w = r" using r by (simp add: uint_seconds)
  moreover from UInt64_mul_InrD [OF mul] have "uint ms = uint w * uint (1000 :: 64 word)"
    by blast
  moreover from mul have "uint w * uint (1000 :: 64 word) < 2 ^ 64"
    by (auto simp: UInt64_mul_def split: if_splits)
  ultimately show ?thesis using r(1) by simp
qed

lemma quotient_fits:
  "uint ((ms :: 64 word) div 1000) < 2 ^ 63"
proof -
  have "uint ms \<le> 2 ^ 64 - 1" using uint_lt2p [of ms] by simp
  then have "uint ms div 1000 \<le> (2 ^ 64 - 1) div 1000" by (rule zdiv_mono1) simp
  also have "\<dots> < (2 ^ 63 :: int)" by simp
  finally show ?thesis by (simp add: uint_div)
qed

subsection \<open>What a returning call has done\<close>

lemma pushDataPoints_InrD:
  assumes "pushDataPoints s bu bd cg cd = Inr s'"
  shows "bytesUp s' = tl (bytesUp s) @ [bu] \<and> length (bytesUp s') = length (bytesUp s) \<and>
         bytesDown s' = tl (bytesDown s) @ [bd] \<and>
         length (bytesDown s') = length (bytesDown s) \<and>
         connectingClients s' = tl (connectingClients s) @ [cg] \<and>
         length (connectingClients s') = length (connectingClients s) \<and>
         connectedClients s' = tl (connectedClients s) @ [cd] \<and>
         length (connectedClients s') = length (connectedClients s)"
  using assms unfolding pushDataPoints_def andThen_eq_Inr
  by (auto simp: removeFirst_def Deque_append_def split: list.splits)

lemma elapsedBucketCount_InrD:
  "elapsedBucketCount s ms = Inr e \<Longrightarrow>
   msBucketPeriod s \<noteq> 0 \<and> uint (ms div msBucketPeriod s) < 2 ^ 63"
  by (auto simp: elapsedBucketCount_def Int_of_UInt64_def andThen_eq_Inr split: if_splits)

lemma updateSeries_InrD:
  "updateSeries s ms bu bd cg cd = Inr s' \<Longrightarrow>
   msBucketPeriod s \<noteq> 0 \<and> uint (ms div msBucketPeriod s) < 2 ^ 63"
  unfolding updateSeries_def andThen_eq_Inr
  by (blast dest: elapsedBucketCount_InrD)

lemma updateSeries_keeps_fixed:
  assumes "fixedLength s" and "updateSeries s ms bu bd cg cd = Inr s'"
  shows "fixedLength s' \<and> numBuckets s' = numBuckets s \<and>
         msBucketPeriod s' = msBucketPeriod s"
proof -
  from updateSeries_InrD [OF assms(2)]
  have "msBucketPeriod s \<noteq> 0" and "uint (ms div msBucketPeriod s) < 2 ^ 63"
    by simp_all
  from updateSeries_fixed [OF assms(1) this, of bu bd cg cd] assms
  show ?thesis
    by (auto simp: fixedLength_def length_pushed)
qed

lemma update_InrD:
  assumes "update s now bu bd cg cd = Inr s'"
  shows "\<exists>ms series.
           0 \<le> bu \<and> uint (totalBytesUp s') = uint (totalBytesUp s) + bu \<and>
           0 \<le> bd \<and> uint (totalBytesDown s') = uint (totalBytesDown s) + bd \<and>
           msSinceUpdate now (lastUpdate s) = Inr ms \<and>
           updateSeries (seriesFast s) ms bu bd cg cd = Inr series \<and>
           s' = s \<lparr> totalBytesUp := totalBytesUp s', totalBytesDown := totalBytesDown s',
                    currentConnectingClients := cg, currentConnectedClients := cd,
                    seriesFast := series, lastUpdate := now \<rparr>"
  using assms unfolding update_def andThen_eq_Inr
  by (auto dest!: UInt64_of_Int_InrD UInt64_add_InrD)

lemma update_totals:
  assumes "update s now bu bd cg cd = Inr s'"
  shows "0 \<le> bu \<and> uint (totalBytesUp s') = uint (totalBytesUp s) + bu \<and>
         0 \<le> bd \<and> uint (totalBytesDown s') = uint (totalBytesDown s) + bd"
  using update_InrD [OF assms] by blast

subsection \<open>The configuration of the series is kept\<close>

lemma ActivitySeries_init_value:
  "0 \<le> n \<Longrightarrow>
   ActivitySeries_init p n =
     Inr \<lparr> msBucketPeriod = p, numBuckets = n,
           bytesUp = replicate (nat n) 0, bytesDown = replicate (nat n) 0,
           connectingClients = replicate (nat n) 0,
           connectedClients = replicate (nat n) 0 \<rparr>"
  by (simp add: ActivitySeries_init_def Deque_repeating_def andThen_Inr)

lemma ActivityStats_init_value:
  "ActivityStats_init now =
     Inr \<lparr> startTime = now, lastUpdate = now, totalBytesUp = 0, totalBytesDown = 0,
           currentConnectingClients = 0, currentConnectedClients = 0,
           seriesFast =
             \<lparr> msBucketPeriod = 1000, numBuckets = 288,
               bytesUp = replicate 288 0, bytesDown = replicate 288 0,
               connectingClients = replicate 288 0,
               connectedClients = replicate 288 0 \<rparr> \<rparr>"
  by (simp add: ActivityStats_init_def ActivitySeries_init_value andThen_Inr)

lemma ActivityStats_init_configured:
  "ActivityStats_init now = Inr s \<Longrightarrow> configured s"
  by (auto simp: ActivityStats_init_value configured_def fixedLength_def)

lemma update_keeps_configured:
  assumes "configured s" and "update s now bu bd cg cd = Inr s'"
  shows "configured s'"
proof -
  from update_InrD [OF assms(2)] obtain ms series
    where series: "updateSeries (seriesFast s) ms bu bd cg cd = Inr series"
      and s': "seriesFast s' = series"
  proof -
    from update_InrD [OF assms(2)] obtain ms series where
      "updateSeries (seriesFast s) ms bu bd cg cd = Inr series" and
      eq: "s' = s \<lparr> totalBytesUp := totalBytesUp s', totalBytesDown := totalBytesDown s',
                    currentConnectingClients := cg, currentConnectedClients := cd,
                    seriesFast := series, lastUpdate := now \<rparr>"
      by blast
    moreover have "seriesFast s' = series"
      by (subst eq) simp
    ultimately show ?thesis using that by blast
  qed
  from assms(1) have "fixedLength (seriesFast s)"
    by (simp add: configured_def)
  from updateSeries_keeps_fixed [OF this series] assms(1) s'
  show ?thesis by (simp add: configured_def)
qed

lemma updates_keeps_configured:
  "configured s \<Longrightarrow> updates s ticks = Inr s' \<Longrightarrow> configured s'"
proof (induction ticks arbitrary: s)
  case Nil
  then show ?case by simp
next
  case (Cons tick ticks)
  obtain now bu bd cg cd where tick: "tick = (now, bu, bd, cg, cd)"
    by (cases tick)
  from Cons.prems(2) obtain s1 where
    step: "update s now bu bd cg cd = Inr s1" and rest: "updates s1 ticks = Inr s'"
    by (auto simp: tick andThen_eq_Inr)
  from update_keeps_configured [OF Cons.prems(1) step] rest
  show ?case by (rule Cons.IH)
qed

subsection \<open>The closed form of \<open>update\<close>\<close>

lemma update_value:
  assumes "configured s"
    and "0 \<le> bu" and "uint (totalBytesUp s) + bu < 2 ^ 64"
    and "0 \<le> bd" and "uint (totalBytesDown s) + bd < 2 ^ 64"
    and "msSinceUpdate now (lastUpdate s) = Inr ms"
  shows "update s now bu bd cg cd =
           Inr (s \<lparr> totalBytesUp := totalBytesUp s + word_of_int bu,
                    totalBytesDown := totalBytesDown s + word_of_int bd,
                    currentConnectingClients := cg, currentConnectedClients := cd,
                    seriesFast := (seriesFast s)
                      \<lparr> bytesUp := pushed (bytesUp (seriesFast s))
                                     (replicate (gapBuckets (seriesFast s) ms) 0 @ [bu]),
                        bytesDown := pushed (bytesDown (seriesFast s))
                                     (replicate (gapBuckets (seriesFast s) ms) 0 @ [bd]),
                        connectingClients := pushed (connectingClients (seriesFast s))
                                     (replicate (gapBuckets (seriesFast s) ms) 0 @ [cg]),
                        connectedClients := pushed (connectedClients (seriesFast s))
                                     (replicate (gapBuckets (seriesFast s) ms) 0 @ [cd]) \<rparr>,
                    lastUpdate := now \<rparr>)"
proof -
  have bu64: "bu < 2 ^ 64" and bd64: "bd < 2 ^ 64"
    using assms(3,5) uint_ge_0 [of "totalBytesUp s"] uint_ge_0 [of "totalBytesDown s"]
    by linarith+
  have up: "UInt64_of_Int bu = Inr (word_of_int bu)"
    and down: "UInt64_of_Int bd = Inr (word_of_int bd)"
    using assms(2,4) bu64 bd64 by (simp_all add: UInt64_of_Int_def)
  have addUp: "UInt64_add (totalBytesUp s) (word_of_int bu) =
                 Inr (totalBytesUp s + word_of_int bu)"
    using assms(2,3) bu64 by (simp add: UInt64_add_def uint_seconds)
  have addDown: "UInt64_add (totalBytesDown s) (word_of_int bd) =
                 Inr (totalBytesDown s + word_of_int bd)"
    using assms(4,5) bd64 by (simp add: UInt64_add_def uint_seconds)
  have fixed: "fixedLength (seriesFast s)" and period: "msBucketPeriod (seriesFast s) = 1000"
    using assms(1) by (simp_all add: configured_def)
  have nonzero: "msBucketPeriod (seriesFast s) \<noteq> 0"
    by (simp add: period)
  have fits: "uint (ms div msBucketPeriod (seriesFast s)) < 2 ^ 63"
    unfolding period by (rule quotient_fits)
  show ?thesis
    unfolding update_def up down addUp addDown assms(6) andThen_Inr
      updateSeries_fixed [OF fixed nonzero fits]
    by simp
qed

lemma second_after_fresh:
  assumes "0 \<le> bu" and "bu < 2 ^ 64" and "0 \<le> bd" and "bd < 2 ^ 64"
  shows "update \<lparr> startTime = t0, lastUpdate = t0, totalBytesUp = 0, totalBytesDown = 0,
           currentConnectingClients = 0, currentConnectedClients = 0,
           seriesFast =
             \<lparr> msBucketPeriod = 1000, numBuckets = 288,
               bytesUp = replicate 288 0, bytesDown = replicate 288 0,
               connectingClients = replicate 288 0,
               connectedClients = replicate 288 0 \<rparr> \<rparr> (t0 + 1) bu bd cg cd =
         Inr \<lparr> startTime = t0, lastUpdate = t0 + 1,
           totalBytesUp = word_of_int bu, totalBytesDown = word_of_int bd,
           currentConnectingClients = cg, currentConnectedClients = cd,
           seriesFast =
             \<lparr> msBucketPeriod = 1000, numBuckets = 288,
               bytesUp = replicate 287 0 @ [bu], bytesDown = replicate 287 0 @ [bd],
               connectingClients = replicate 287 0 @ [cg],
               connectedClients = replicate 287 0 @ [cd] \<rparr> \<rparr>"
proof -
  let ?s0 = "\<lparr> startTime = t0, lastUpdate = t0, totalBytesUp = 0, totalBytesDown = 0,
           currentConnectingClients = 0, currentConnectedClients = 0,
           seriesFast =
             \<lparr> msBucketPeriod = 1000, numBuckets = 288,
               bytesUp = replicate 288 0, bytesDown = replicate 288 0,
               connectingClients = replicate 288 0,
               connectedClients = replicate 288 0 \<rparr> \<rparr>"
  have conf: "configured ?s0"
    by (simp add: configured_def fixedLength_def)
  have "round_Double (t0 + 1 - lastUpdate ?s0) = of_int 1"
    by (simp add: round_Double_def floor_eq_iff)
  then have ms: "msSinceUpdate (t0 + 1) (lastUpdate ?s0) = Inr (word_of_int (1 * 1000))"
    by (rule msSinceUpdate_value) simp_all
  have gap: "gapBuckets (seriesFast ?s0) (word_of_int (1 * 1000)) = 0"
    by (simp add: gapBuckets_def)
  have up: "uint (totalBytesUp ?s0) + bu < 2 ^ 64"
    and down: "uint (totalBytesDown ?s0) + bd < 2 ^ 64"
    using assms by simp_all
  show ?thesis
    unfolding update_value [OF conf assms(1) up assms(3) down ms] gap
    by (simp add: pushed_def)
qed

subsection \<open>Fixed length\<close>

text \<open>
  Claim C3. The series of fresh stats has 288 buckets, each channel filled with 288
  zeros. After the first \<open>k\<close> calls of any run of \<open>update\<close> calls that return, the series
  still has \<open>numBuckets = 288\<close> and each of its four channels has length 288. Every push
  that returns has removed the oldest element of each channel and appended the new one,
  so no channel changes its length.
\<close>

theorem fixed_length_invariant:
  assumes "ActivityStats_init t0 = Inr s0" and "updates s0 (take k ticks) = Inr s"
  shows "seriesFast s0 =
           \<lparr> msBucketPeriod = 1000, numBuckets = 288,
             bytesUp = replicate 288 0, bytesDown = replicate 288 0,
             connectingClients = replicate 288 0,
             connectedClients = replicate 288 0 \<rparr> \<and>
         numBuckets (seriesFast s) = 288 \<and>
         length (bytesUp (seriesFast s)) = 288 \<and>
         length (bytesDown (seriesFast s)) = 288 \<and>
         length (connectingClients (seriesFast s)) = 288 \<and>
         length (connectedClients (seriesFast s)) = 288 \<and>
         (\<forall>c bu bd cg cd c'. pushDataPoints c bu bd cg cd = Inr c' \<longrightarrow>
            bytesUp c' = tl (bytesUp c) @ [bu] \<and>
            length (bytesUp c') = length (bytesUp c) \<and>
            bytesDown c' = tl (bytesDown c) @ [bd] \<and>
            length (bytesDown c') = length (bytesDown c) \<and>
            connectingClients c' = tl (connectingClients c) @ [cg] \<and>
            length (connectingClients c') = length (connectingClients c) \<and>
            connectedClients c' = tl (connectedClients c) @ [cd] \<and>
            length (connectedClients c') = length (connectedClients c))"
proof -
  have "configured s0"
    using assms(1) by (rule ActivityStats_init_configured)
  then have "configured s"
    using assms(2) by (rule updates_keeps_configured)
  then have lengths: "numBuckets (seriesFast s) = 288 \<and>
         length (bytesUp (seriesFast s)) = 288 \<and>
         length (bytesDown (seriesFast s)) = 288 \<and>
         length (connectingClients (seriesFast s)) = 288 \<and>
         length (connectedClients (seriesFast s)) = 288"
    by (simp add: configured_def fixedLength_def)
  have fresh: "seriesFast s0 =
           \<lparr> msBucketPeriod = 1000, numBuckets = 288,
             bytesUp = replicate 288 0, bytesDown = replicate 288 0,
             connectingClients = replicate 288 0,
             connectedClients = replicate 288 0 \<rparr>"
    using assms(1) by (auto simp: ActivityStats_init_value)
  show ?thesis
    using fresh lengths pushDataPoints_InrD by blast
qed

theorem fixed_length_invariant_witness:
  "ActivityStats_init 0 =
     Inr \<lparr> startTime = 0, lastUpdate = 0, totalBytesUp = 0, totalBytesDown = 0,
           currentConnectingClients = 0, currentConnectedClients = 0,
           seriesFast =
             \<lparr> msBucketPeriod = 1000, numBuckets = 288,
               bytesUp = replicate 288 0, bytesDown = replicate 288 0,
               connectingClients = replicate 288 0,
               connectedClients = replicate 288 0 \<rparr> \<rparr> \<and>
   updates \<lparr> startTime = 0, lastUpdate = 0, totalBytesUp = 0, totalBytesDown = 0,
           currentConnectingClients = 0, currentConnectedClients = 0,
           seriesFast =
             \<lparr> msBucketPeriod = 1000, numBuckets = 288,
               bytesUp = replicate 288 0, bytesDown = replicate 288 0,
               connectingClients = replicate 288 0,
               connectedClients = replicate 288 0 \<rparr> \<rparr>
     (take 1 [(1, 5, 6, 1, 2), (2, 0, 0, 0, 0)]) =
     Inr \<lparr> startTime = 0, lastUpdate = 1, totalBytesUp = 5, totalBytesDown = 6,
           currentConnectingClients = 1, currentConnectedClients = 2,
           seriesFast =
             \<lparr> msBucketPeriod = 1000, numBuckets = 288,
               bytesUp = replicate 287 0 @ [5], bytesDown = replicate 287 0 @ [6],
               connectingClients = replicate 287 0 @ [1],
               connectedClients = replicate 287 0 @ [2] \<rparr> \<rparr> \<and>
   length (replicate 287 0 @ [5 :: int]) = 288 \<and>
   pushDataPoints \<lparr> msBucketPeriod = 1000, numBuckets = 2,
       bytesUp = [7, 8], bytesDown = [1, 2],
       connectingClients = [3, 4], connectedClients = [5, 6] \<rparr> 9 10 11 12 =
     Inr \<lparr> msBucketPeriod = 1000, numBuckets = 2,
           bytesUp = [8, 9], bytesDown = [2, 10],
           connectingClients = [4, 11], connectedClients = [6, 12] \<rparr> \<and>
   [8, 9 :: int] = tl [7, 8] @ [9]"
proof -
  let ?s0 = "\<lparr> startTime = 0, lastUpdate = 0, totalBytesUp = 0, totalBytesDown = 0,
           currentConnectingClients = 0, currentConnectedClients = 0,
           seriesFast =
             \<lparr> msBucketPeriod = 1000, numBuckets = 288,
               bytesUp = replicate 288 0, bytesDown = replicate 288 0,
               connectingClients = replicate 288 0,
               connectedClients = replicate 288 0 \<rparr> \<rparr>"
  let ?s1 = "\<lparr> startTime = 0, lastUpdate = 1, totalBytesUp = 5, totalBytesDown = 6,
           currentConnectingClients = 1, currentConnectedClients = 2,
           seriesFast =
             \<lparr> msBucketPeriod = 1000, numBuckets = 288,
               bytesUp = replicate 287 0 @ [5], bytesDown = replicate 287 0 @ [6],
               connectingClients = replicate 287 0 @ [1],
               connectedClients = replicate 287 0 @ [2] \<rparr> \<rparr>"
  let ?c = "\<lparr> msBucketPeriod = 1000, numBuckets = 2,
       bytesUp = [7, 8], bytesDown = [1, 2],
       connectingClients = [3, 4], connectedClients = [5, 6] \<rparr>"
  let ?c' = "\<lparr> msBucketPeriod = 1000, numBuckets = 2,
           bytesUp = [8, 9], bytesDown = [2, 10],
           connectingClients = [4, 11], connectedClients = [6, 12] \<rparr>"
  have init: "ActivityStats_init 0 = Inr ?s0"
    by (rule ActivityStats_init_value)
  have "update ?s0 (0 + 1) 5 6 1 2 = Inr ?s1"
    by (subst second_after_fresh) simp_all
  then have run: "updates ?s0 (take 1 [(1, 5, 6, 1, 2), (2, 0, 0, 0, 0)]) = Inr ?s1"
    by (simp add: andThen_Inr)
  have push: "pushDataPoints ?c 9 10 11 12 = Inr ?c'"
    by (simp add: pushDataPoints_def removeFirst_def Deque_append_def andThen_Inr)
  from fixed_length_invariant [OF init run]
  have "length (bytesUp (seriesFast ?s1)) = 288" and
    "\<forall>c bu bd cg cd c'. pushDataPoints c bu bd cg cd = Inr c' \<longrightarrow>
       bytesUp c' = tl (bytesUp c) @ [bu]"
    by blast+
  with push have "length (bytesUp (seriesFast ?s1)) = 288" and
    "bytesUp ?c' = tl (bytesUp ?c) @ [9]"
    by blast+
  then show ?thesis using init run push by simp
qed

subsection \<open>Monotonic totals\<close>

text \<open>
  Claim C6. Over any run of \<open>update\<close> calls that return, \<open>totalBytesUp\<close> and
  \<open>totalBytesDown\<close> do not decrease (as unsigned 64-bit values): each is the old total
  plus the sum of the byte counts of the ticks, without wrap-around, since an addition that
  overflows traps and a negative byte count traps in the conversion to \<open>UInt64\<close>. No other
  operation of \<open>ActivityStats\<close> writes the totals.
\<close>

theorem monotonic_totals:
  assumes "updates s ticks = Inr s'"
  shows "totalBytesUp s \<le> totalBytesUp s' \<and> totalBytesDown s \<le> totalBytesDown s' \<and>
         uint (totalBytesUp s') = uint (totalBytesUp s) + sum_list (map tickBytesUp ticks) \<and>
         uint (totalBytesDown s') =
           uint (totalBytesDown s) + sum_list (map tickBytesDown ticks)"
  using assms
proof (induction ticks arbitrary: s)
  case Nil
  then show ?case by simp
next
  case (Cons tick ticks)
  obtain now bu bd cg cd where tick: "tick = (now, bu, bd, cg, cd)"
    by (cases tick)
  from Cons.prems obtain s1 where
    step: "update s now bu bd cg cd = Inr s1" and rest: "updates s1 ticks = Inr s'"
    by (auto simp: tick andThen_eq_Inr)
  note one = update_totals [OF step]
  note more = Cons.IH [OF rest]
  have bytes: "tickBytesUp tick = bu" "tickBytesDown tick = bd"
    by (simp_all add: tick tickBytesUp_def tickBytesDown_def)
  from one have "uint (totalBytesUp s) \<le> uint (totalBytesUp s1)"
    and "uint (totalBytesDown s) \<le> uint (totalBytesDown s1)"
    by simp_all
  then have "totalBytesUp s \<le> totalBytesUp s1" and "totalBytesDown s \<le> totalBytesDown s1"
    by (simp_all add: word_le_def)
  with more have "totalBytesUp s \<le> totalBytesUp s'" and "totalBytesDown s \<le> totalBytesDown s'"
    by auto
  moreover have "uint (totalBytesUp s') =
      uint (totalBytesUp s) + sum_list (map tickBytesUp (tick # ticks))"
    using one more by (simp add: bytes)
  moreover have "uint (totalBytesDown s') =
      uint (totalBytesDown s) + sum_list (map tickBytesDown (tick # ticks))"
    using one more by (simp add: bytes)
  ultimately show ?case by blast
qed

theorem monotonic_totals_witness:
  "updates \<lparr> startTime = 0, lastUpdate = 0, totalBytesUp = 0, totalBytesDown = 0,
           currentConnectingClients = 0, currentConnectedClients = 0,
           seriesFast =
             \<lparr> msBucketPeriod = 1000, numBuckets = 288,
               bytesUp = replicate 288 0, bytesDown = replicate 288 0,
               connectingClients = replicate 288 0,
               connectedClients = replicate 288 0 \<rparr> \<rparr>
     [(1, 5, 6, 1, 2)] =
     Inr \<lparr> startTime = 0, lastUpdate = 1, totalBytesUp = 5, totalBytesDown = 6,
           currentConnectingClients = 1, currentConnectedClients = 2,
           seriesFast =
             \<lparr> msBucketPeriod = 1000, numBuckets = 288,
               bytesUp = replicate 287 0 @ [5], bytesDown = replicate 287 0 @ [6],
               connectingClients = replicate 287 0 @ [1],
               connectedClients = replicate 287 0 @ [2] \<rparr> \<rparr> \<and>
   (0 :: 64 word) \<le> 5 \<and> (0 :: 64 word) \<le> 6 \<and>
   uint (5 :: 64 word) = uint (0 :: 64 word) + sum_list (map tickBytesUp [(1, 5, 6, 1, 2)]) \<and>
   uint (6 :: 64 word) = uint (0 :: 64 word) + sum_list (map tickBytesDown [(1, 5, 6, 1, 2)])"
proof -
  let ?s0 = "\<lparr> startTime = 0, lastUpdate = 0, totalBytesUp = 0, totalBytesDown = 0,
           currentConnectingClients = 0, currentConnectedClients = 0,
           seriesFast =
             \<lparr> msBucketPeriod = 1000, numBuckets = 288,
               bytesUp = replicate 288 0, bytesDown = replicate 288 0,
               connectingClients = replicate 288 0,
               connectedClients = replicate 288 0 \<rparr> \<rparr>"
  let ?s1 = "\<lparr> startTime = 0, lastUpdate = 1, totalBytesUp = 5, totalBytesDown = 6,
           currentConnectingClients = 1, currentConnectedClients = 2,
           seriesFast =
             \<lparr> msBucketPeriod = 1000, numBuckets = 288,
               bytesUp = replicate 287 0 @ [5], bytesDown = replicate 287 0 @ [6],
               connectingClients = replicate 287 0 @ [1],
               connectedClients = replicate 287 0 @ [2] \<rparr> \<rparr>"
  have "update ?s0 (0 + 1) 5 6 1 2 = Inr ?s1"
    by (subst second_after_fresh) simp_all
  then have run: "updates ?s0 [(1, 5, 6, 1, 2)] = Inr ?s1"
    by (simp add: andThen_Inr)
  from monotonic_totals [OF run] run show ?thesis
    by simp
qed

subsection \<open>Rounding of the elapsed time\<close>

lemma round_Double_value:
  "round_Double d = of_int (if 0 \<le> d then round d else - round (- d))"
  by (simp add: round_Double_def round_def)

lemma msSinceUpdate_returns:
  assumes "previous \<le> now" and "now - previous \<le> 10 ^ 16"
  shows "msSinceUpdate now previous = Inr (word_of_int (round (now - previous) * 1000))"
proof -
  let ?d = "now - previous"
  have d0: "0 \<le> ?d" using assms(1) by simp
  then have rd: "round_Double ?d = of_int (round ?d)"
    by (simp add: round_Double_value)
  have "round (0::rat) \<le> round ?d" using d0 by (rule round_mono)
  then have r0: "0 \<le> round ?d" by simp
  have "round ?d \<le> round (10 ^ 16 :: rat)" using assms(2) by (rule round_mono)
  also have "round (10 ^ 16 :: rat) = 10 ^ 16"
    using round_of_int [of "10 ^ 16", where 'a = rat] by simp
  finally have "round ?d * 1000 \<le> 10 ^ 16 * 1000" by simp
  also have "\<dots> < (2 ^ 64 :: int)" by simp
  finally have r1: "round ?d * 1000 < 2 ^ 64" .
  from rd r0 r1 show ?thesis by (rule msSinceUpdate_value)
qed

lemma round_Double_small:
  assumes "(d::rat) < 3 / 2"
  shows "(if 0 \<le> d then round d else - round (- d)) \<le> 1"
proof (cases "0 \<le> d")
  case True
  have "round d < 2"
    unfolding round_def using assms by (simp add: floor_less_iff)
  then show ?thesis using True by simp
next
  case False
  then have "0 \<le> - d" by simp
  then have "round (0::rat) \<le> round (- d)" by (rule round_mono)
  then show ?thesis using False by simp
qed

lemma round_jitter:
  assumes "\<bar>j\<bar> < 1 / 2"
  shows "round (of_int k + (j::rat)) = k"
proof -
  have "0 \<le> j + 1 / 2" and "j + 1 / 2 < 1"
    using assms by linarith+
  then have "of_int k \<le> of_int k + j + 1 / 2" and "of_int k + j + 1 / 2 < of_int k + 1"
    by linarith+
  then have "\<lfloor>of_int k + j + 1 / 2\<rfloor> = k"
    by (simp only: floor_eq_iff)
  then show ?thesis
    by (simp only: round_def)
qed

lemma gapBuckets_seconds:
  assumes "configured s" and "uint ms = r * 1000"
  shows "gapBuckets (seriesFast s) ms = nat (min 288 (r - 1))"
proof -
  have "uint (ms div 1000) = uint ms div uint (1000 :: 64 word)"
    by (rule uint_div)
  then have "uint (ms div 1000) = r"
    using assms(2) by simp
  then show ?thesis
    using assms(1) by (simp add: gapBuckets_def configured_def)
qed

subsection \<open>The series after a returning \<open>update\<close>\<close>

lemma last_pushed: "xs \<noteq> [] \<Longrightarrow> last (pushed xs (zs @ [v])) = v"
proof -
  assume "xs \<noteq> []"
  then have "Suc (length zs) \<le> length (xs @ zs)"
    by (cases xs) simp_all
  then have "pushed xs (zs @ [v]) = drop (Suc (length zs)) (xs @ zs) @ [v]"
    by (simp add: pushed_def)
  then show ?thesis by simp
qed

lemma pushed_two:
  assumes "2 \<le> length xs"
  shows "pushed (pushed xs [u]) [v] = drop 2 xs @ [u, v]"
  using assms by (simp add: pushed_pushed) (simp add: pushed_def numeral_2_eq_2)

lemma update_series:
  assumes "configured s" and "update s now bu bd cg cd = Inr s'"
  shows "\<exists>ms. msSinceUpdate now (lastUpdate s) = Inr ms \<and>
           updateSeries (seriesFast s) ms bu bd cg cd = Inr (seriesFast s') \<and>
           seriesFast s' = (seriesFast s)
             \<lparr> bytesUp := pushed (bytesUp (seriesFast s))
                            (replicate (gapBuckets (seriesFast s) ms) 0 @ [bu]),
               bytesDown := pushed (bytesDown (seriesFast s))
                            (replicate (gapBuckets (seriesFast s) ms) 0 @ [bd]),
               connectingClients := pushed (connectingClients (seriesFast s))
                            (replicate (gapBuckets (seriesFast s) ms) 0 @ [cg]),
               connectedClients := pushed (connectedClients (seriesFast s))
                            (replicate (gapBuckets (seriesFast s) ms) 0 @ [cd]) \<rparr> \<and>
           lastUpdate s' = now"
proof -
  from update_InrD [OF assms(2)] obtain ms series where
    ms: "msSinceUpdate now (lastUpdate s) = Inr ms" and
    series: "updateSeries (seriesFast s) ms bu bd cg cd = Inr series" and
    eq: "s' = s \<lparr> totalBytesUp := totalBytesUp s', totalBytesDown := totalBytesDown s',
                  currentConnectingClients := cg, currentConnectedClients := cd,
                  seriesFast := series, lastUpdate := now \<rparr>"
    by blast
  have sel: "seriesFast s' = series" "lastUpdate s' = now"
    by (subst eq, simp)+
  have fixed: "fixedLength (seriesFast s)" and nonzero: "msBucketPeriod (seriesFast s) \<noteq> 0"
    using assms(1) by (simp_all add: configured_def)
  from updateSeries_InrD [OF series]
  have fits: "uint (ms div msBucketPeriod (seriesFast s)) < 2 ^ 63" by simp
  from updateSeries_fixed [OF fixed nonzero fits, of bu bd cg cd] series ms sel
  show ?thesis by simp
qed

lemma update_without_gap:
  assumes "configured s" and "update s now bu bd cg cd = Inr s'"
    and "now - lastUpdate s < 3 / 2"
  shows "pushDataPoints (seriesFast s) bu bd cg cd = Inr (seriesFast s') \<and>
         seriesFast s' = (seriesFast s)
             \<lparr> bytesUp := pushed (bytesUp (seriesFast s)) [bu],
               bytesDown := pushed (bytesDown (seriesFast s)) [bd],
               connectingClients := pushed (connectingClients (seriesFast s)) [cg],
               connectedClients := pushed (connectedClients (seriesFast s)) [cd] \<rparr> \<and>
         lastUpdate s' = now"
proof -
  let ?d = "now - lastUpdate s"
  let ?r = "if 0 \<le> ?d then round ?d else - round (- ?d)"
  from update_series [OF assms(1,2)] obtain ms where
    ms: "msSinceUpdate now (lastUpdate s) = Inr ms" and
    series: "seriesFast s' = (seriesFast s)
             \<lparr> bytesUp := pushed (bytesUp (seriesFast s))
                            (replicate (gapBuckets (seriesFast s) ms) 0 @ [bu]),
               bytesDown := pushed (bytesDown (seriesFast s))
                            (replicate (gapBuckets (seriesFast s) ms) 0 @ [bd]),
               connectingClients := pushed (connectingClients (seriesFast s))
                            (replicate (gapBuckets (seriesFast s) ms) 0 @ [cg]),
               connectedClients := pushed (connectedClients (seriesFast s))
                            (replicate (gapBuckets (seriesFast s) ms) 0 @ [cd]) \<rparr>" and
    last: "lastUpdate s' = now"
    by blast
  from msSinceUpdate_InrD [OF ms round_Double_value]
  have "uint ms = ?r * 1000" by simp
  from gapBuckets_seconds [OF assms(1) this] round_Double_small [OF assms(3)]
  have gap: "gapBuckets (seriesFast s) ms = 0" by simp
  have fixed: "fixedLength (seriesFast s)"
    using assms(1) by (simp add: configured_def)
  show ?thesis
    using series last by (simp add: gap pushDataPoints_fixed [OF fixed])
qed

lemma update_pushes:
  assumes "update s now bu bd cg cd = Inr s'"
  shows "\<exists>k mid. pushZeros k (seriesFast s) = Inr mid \<and>
           pushDataPoints mid bu bd cg cd = Inr (seriesFast s')"
proof -
  from update_InrD [OF assms] obtain ms series where
    series: "updateSeries (seriesFast s) ms bu bd cg cd = Inr series" and
    eq: "s' = s \<lparr> totalBytesUp := totalBytesUp s', totalBytesDown := totalBytesDown s',
                  currentConnectingClients := cg, currentConnectedClients := cd,
                  seriesFast := series, lastUpdate := now \<rparr>"
    by blast
  have sel: "seriesFast s' = series"
    by (subst eq) simp
  from series obtain e mid where
    zeros: "(if e > 0 then pushZeros (nat e) (seriesFast s) else Inr (seriesFast s)) = Inr mid"
    and push: "pushDataPoints mid bu bd cg cd = Inr series"
    unfolding updateSeries_def andThen_eq_Inr by blast
  have "pushZeros (if e > 0 then nat e else 0) (seriesFast s) = Inr mid"
    using zeros by (simp split: if_splits)
  with push sel show ?thesis by blast
qed

lemma update_value_seconds:
  assumes "configured s"
    and "0 \<le> bu" and "uint (totalBytesUp s) + bu < 2 ^ 64"
    and "0 \<le> bd" and "uint (totalBytesDown s) + bd < 2 ^ 64"
    and "round_Double (now - lastUpdate s) = of_int r" and "0 \<le> r" and "r * 1000 < 2 ^ 64"
  shows "update s now bu bd cg cd =
           Inr (s \<lparr> totalBytesUp := totalBytesUp s + word_of_int bu,
                    totalBytesDown := totalBytesDown s + word_of_int bd,
                    currentConnectingClients := cg, currentConnectedClients := cd,
                    seriesFast := (seriesFast s)
                      \<lparr> bytesUp := pushed (bytesUp (seriesFast s))
                                     (replicate (nat (min 288 (r - 1))) 0 @ [bu]),
                        bytesDown := pushed (bytesDown (seriesFast s))
                                     (replicate (nat (min 288 (r - 1))) 0 @ [bd]),
                        connectingClients := pushed (connectingClients (seriesFast s))
                                     (replicate (nat (min 288 (r - 1))) 0 @ [cg]),
                        connectedClients := pushed (connectedClients (seriesFast s))
                                     (replicate (nat (min 288 (r - 1))) 0 @ [cd]) \<rparr>,
                    lastUpdate := now \<rparr>)"
proof -
  note ms = msSinceUpdate_value [OF assms(6,7,8)]
  from msSinceUpdate_InrD [OF ms assms(6)]
  have "uint (word_of_int (r * 1000) :: 64 word) = r * 1000" by simp
  note gap = gapBuckets_seconds [OF assms(1) this]
  show ?thesis
    unfolding update_value [OF assms(1,2,3,4,5) ms] gap ..
qed

subsection \<open>Negative arguments\<close>

text \<open>
  Claim C4, as the code has it. \<open>update\<close> clamps nothing. A negative \<open>bytesUp\<close> traps in
  \<open>UInt64(bytesUp)\<close>, and with a negative \<open>bytesDown\<close> the call traps as well: the call
  aborts. With byte counts that are not negative, totals that do not overflow and a clock
  that has not run backwards (and at most \<open>10 ^ 16\<close> seconds forwards), the call returns:
  the byte counts are added to the totals as they are, and the four arguments are the
  newest buckets as they are, negative client counts included.
\<close>

theorem update_does_not_clamp:
  "(bu < 0 \<longrightarrow> update s now bu bd cg cd = Inl NotRepresentable) \<and>
   (bd < 0 \<longrightarrow> (\<exists>t. update s now bu bd cg cd = Inl t)) \<and>
   (configured s \<and> 0 \<le> bu \<and> uint (totalBytesUp s) + bu < 2 ^ 64 \<and>
    0 \<le> bd \<and> uint (totalBytesDown s) + bd < 2 ^ 64 \<and>
    lastUpdate s \<le> now \<and> now - lastUpdate s \<le> 10 ^ 16 \<longrightarrow>
    (\<exists>s'. update s now bu bd cg cd = Inr s' \<and>
          uint (totalBytesUp s') = uint (totalBytesUp s) + bu \<and>
          uint (totalBytesDown s') = uint (totalBytesDown s) + bd \<and>
          currentConnectingClients s' = cg \<and> currentConnectedClients s' = cd \<and>
          last (bytesUp (seriesFast s')) = bu \<and>
          last (bytesDown (seriesFast s')) = bd \<and>
          last (connectingClients (seriesFast s')) = cg \<and>
          last (connectedClients (seriesFast s')) = cd))"
proof (intro conjI impI)
  assume "bu < 0"
  then show "update s now bu bd cg cd = Inl NotRepresentable"
    by (simp add: update_def UInt64_of_Int_def andThen_Inl)
next
  assume neg: "bd < 0"
  show "\<exists>t. update s now bu bd cg cd = Inl t"
  proof (cases "update s now bu bd cg cd")
    case (Inl t)
    then show ?thesis by blast
  next
    case (Inr s')
    from update_totals [OF this] neg show ?thesis by simp
  qed
next
  assume pre: "configured s \<and> 0 \<le> bu \<and> uint (totalBytesUp s) + bu < 2 ^ 64 \<and>
    0 \<le> bd \<and> uint (totalBytesDown s) + bd < 2 ^ 64 \<and>
    lastUpdate s \<le> now \<and> now - lastUpdate s \<le> 10 ^ 16"
  then have conf: "configured s" and bu: "0 \<le> bu" "uint (totalBytesUp s) + bu < 2 ^ 64"
    and bd: "0 \<le> bd" "uint (totalBytesDown s) + bd < 2 ^ 64"
    and time: "lastUpdate s \<le> now" "now - lastUpdate s \<le> 10 ^ 16"
    by simp_all
  note ms = msSinceUpdate_returns [OF time]
  note result = update_value [OF conf bu bd ms, of cg cd]
  have "bytesUp (seriesFast s) \<noteq> []" "bytesDown (seriesFast s) \<noteq> []"
    "connectingClients (seriesFast s) \<noteq> []" "connectedClients (seriesFast s) \<noteq> []"
    using conf by (auto simp: configured_def fixedLength_def)
  with update_totals [OF result] result
  show "\<exists>s'. update s now bu bd cg cd = Inr s' \<and>
          uint (totalBytesUp s') = uint (totalBytesUp s) + bu \<and>
          uint (totalBytesDown s') = uint (totalBytesDown s) + bd \<and>
          currentConnectingClients s' = cg \<and> currentConnectedClients s' = cd \<and>
          last (bytesUp (seriesFast s')) = bu \<and>
          last (bytesDown (seriesFast s')) = bd \<and>
          last (connectingClients (seriesFast s')) = cg \<and>
          last (connectedClients (seriesFast s')) = cd"
    by (simp add: last_pushed)
qed

theorem update_does_not_clamp_witness:
  "update \<lparr> startTime = 0, lastUpdate = 0, totalBytesUp = 0, totalBytesDown = 0,
           currentConnectingClients = 0, currentConnectedClients = 0,
           seriesFast =
             \<lparr> msBucketPeriod = 1000, numBuckets = 288,
               bytesUp = replicate 288 0, bytesDown = replicate 288 0,
               connectingClients = replicate 288 0,
               connectedClients = replicate 288 0 \<rparr> \<rparr> 1 (- 7) 0 0 0 =
     Inl NotRepresentable \<and>
   (\<exists>t. update \<lparr> startTime = 0, lastUpdate = 0, totalBytesUp = 0, totalBytesDown = 0,
           currentConnectingClients = 0, currentConnectedClients = 0,
           seriesFast =
             \<lparr> msBucketPeriod = 1000, numBuckets = 288,
               bytesUp = replicate 288 0, bytesDown = replicate 288 0,
               connectingClients = replicate 288 0,
               connectedClients = replicate 288 0 \<rparr> \<rparr> 1 0 (- 7) 0 0 = Inl t) \<and>
   (\<exists>s'. update \<lparr> startTime = 0, lastUpdate = 0, totalBytesUp = 0, totalBytesDown = 0,
           currentConnectingClients = 0, currentConnectedClients = 0,
           seriesFast =
             \<lparr> msBucketPeriod = 1000, numBuckets = 288,
               bytesUp = replicate 288 0, bytesDown = replicate 288 0,
               connectingClients = replicate 288 0,
               connectedClients = replicate 288 0 \<rparr> \<rparr> 1 5 6 (- 3) (- 4) = Inr s' \<and>
          uint (totalBytesUp s') = 5 \<and> uint (totalBytesDown s') = 6 \<and>
          last (connectingClients (seriesFast s')) = - 3 \<and>
          last (connectedClients (seriesFast s')) = - 4)"
proof -
  let ?s0 = "\<lparr> startTime = 0, lastUpdate = 0, totalBytesUp = 0, totalBytesDown = 0,
           currentConnectingClients = 0, currentConnectedClients = 0,
           seriesFast =
             \<lparr> msBucketPeriod = 1000, numBuckets = 288,
               bytesUp = replicate 288 0, bytesDown = replicate 288 0,
               connectingClients = replicate 288 0,
               connectedClients = replicate 288 0 \<rparr> \<rparr>"
  have conf: "configured ?s0"
    by (simp add: configured_def fixedLength_def)
  have a: "update ?s0 1 (- 7) 0 0 0 = Inl NotRepresentable"
    using update_does_not_clamp [of "- 7" ?s0 1 0 0 0] by simp
  have b: "\<exists>t. update ?s0 1 0 (- 7) 0 0 = Inl t"
    using update_does_not_clamp [of 0 ?s0 1 "- 7" 0 0] by simp
  have c: "\<exists>s'. update ?s0 1 5 6 (- 3) (- 4) = Inr s' \<and>
          uint (totalBytesUp s') = 5 \<and> uint (totalBytesDown s') = 6 \<and>
          last (connectingClients (seriesFast s')) = - 3 \<and>
          last (connectedClients (seriesFast s')) = - 4"
  proof -
    have pre: "configured ?s0 \<and> (0::int) \<le> 5 \<and> uint (totalBytesUp ?s0) + 5 < 2 ^ 64 \<and>
        (0::int) \<le> 6 \<and> uint (totalBytesDown ?s0) + 6 < 2 ^ 64 \<and>
        lastUpdate ?s0 \<le> 1 \<and> 1 - lastUpdate ?s0 \<le> 10 ^ 16"
      using conf by simp
    with update_does_not_clamp [of 5 ?s0 1 6 "- 3" "- 4"]
    have "\<exists>s'. update ?s0 1 5 6 (- 3) (- 4) = Inr s' \<and>
          uint (totalBytesUp s') = uint (totalBytesUp ?s0) + 5 \<and>
          uint (totalBytesDown s') = uint (totalBytesDown ?s0) + 6 \<and>
          currentConnectingClients s' = - 3 \<and> currentConnectedClients s' = - 4 \<and>
          last (bytesUp (seriesFast s')) = 5 \<and>
          last (bytesDown (seriesFast s')) = 6 \<and>
          last (connectingClients (seriesFast s')) = - 3 \<and>
          last (connectedClients (seriesFast s')) = - 4"
      by blast
    then show ?thesis by auto
  qed
  from a b c show ?thesis by blast
qed

text \<open>The claim as stated fails: on fresh stats, \<open>bytesUp = -1\<close> makes the call trap.\<close>

theorem negative_bytes_trap_counterexample:
  "update \<lparr> startTime = 0, lastUpdate = 0, totalBytesUp = 0, totalBytesDown = 0,
           currentConnectingClients = 0, currentConnectedClients = 0,
           seriesFast =
             \<lparr> msBucketPeriod = 1000, numBuckets = 288,
               bytesUp = replicate 288 0, bytesDown = replicate 288 0,
               connectingClients = replicate 288 0,
               connectedClients = replicate 288 0 \<rparr> \<rparr> 1 (- 1) 0 0 0 =
     Inl NotRepresentable"
  by (simp add: update_def UInt64_of_Int_def andThen_Inl)

subsection \<open>Every tick pushes\<close>

text \<open>
  Claim C7. On stats reached from fresh ones by a run of \<open>update\<close> calls, every
  returning \<open>update\<close> makes some number of zero pushes (possibly none) followed by one
  push of its arguments. When two calls follow each other with less than a second and a
  half elapsed before each (so that the gap count is at most 0), each of them is exactly
  one push of its arguments, and after both every channel is the old channel without its
  two oldest buckets, followed by the two new values.
\<close>

theorem every_tick_pushes:
  assumes "ActivityStats_init t0 = Inr s0" and "updates s0 ticks = Inr s"
    and "update s now1 bu1 bd1 cg1 cd1 = Inr s1"
    and "update s1 now2 bu2 bd2 cg2 cd2 = Inr s2"
  shows "(\<exists>k mid. pushZeros k (seriesFast s) = Inr mid \<and>
            pushDataPoints mid bu1 bd1 cg1 cd1 = Inr (seriesFast s1)) \<and>
         (now1 - lastUpdate s < 3 / 2 \<and> now2 - now1 < 3 / 2 \<longrightarrow>
            pushDataPoints (seriesFast s) bu1 bd1 cg1 cd1 = Inr (seriesFast s1) \<and>
            pushDataPoints (seriesFast s1) bu2 bd2 cg2 cd2 = Inr (seriesFast s2) \<and>
            bytesUp (seriesFast s2) = drop 2 (bytesUp (seriesFast s)) @ [bu1, bu2] \<and>
            bytesDown (seriesFast s2) = drop 2 (bytesDown (seriesFast s)) @ [bd1, bd2] \<and>
            connectingClients (seriesFast s2) =
              drop 2 (connectingClients (seriesFast s)) @ [cg1, cg2] \<and>
            connectedClients (seriesFast s2) =
              drop 2 (connectedClients (seriesFast s)) @ [cd1, cd2])"
proof -
  have pushes: "\<exists>k mid. pushZeros k (seriesFast s) = Inr mid \<and>
      pushDataPoints mid bu1 bd1 cg1 cd1 = Inr (seriesFast s1)"
    using assms(3) by (rule update_pushes)
  have conf: "configured s"
    using ActivityStats_init_configured [OF assms(1)] assms(2)
    by (rule updates_keeps_configured)
  have conf1: "configured s1"
    using conf assms(3) by (rule update_keeps_configured)
  have len: "2 \<le> length (bytesUp (seriesFast s))" "2 \<le> length (bytesDown (seriesFast s))"
    "2 \<le> length (connectingClients (seriesFast s))"
    "2 \<le> length (connectedClients (seriesFast s))"
    using conf by (simp_all add: configured_def fixedLength_def)
  have pair: "pushDataPoints (seriesFast s) bu1 bd1 cg1 cd1 = Inr (seriesFast s1) \<and>
      pushDataPoints (seriesFast s1) bu2 bd2 cg2 cd2 = Inr (seriesFast s2) \<and>
      bytesUp (seriesFast s2) = drop 2 (bytesUp (seriesFast s)) @ [bu1, bu2] \<and>
      bytesDown (seriesFast s2) = drop 2 (bytesDown (seriesFast s)) @ [bd1, bd2] \<and>
      connectingClients (seriesFast s2) =
        drop 2 (connectingClients (seriesFast s)) @ [cg1, cg2] \<and>
      connectedClients (seriesFast s2) =
        drop 2 (connectedClients (seriesFast s)) @ [cd1, cd2]"
    if close: "now1 - lastUpdate s < 3 / 2" "now2 - now1 < 3 / 2"
  proof -
    note first = update_without_gap [OF conf assms(3) close(1)]
    from close(2) first have "now2 - lastUpdate s1 < 3 / 2" by simp
    note second = update_without_gap [OF conf1 assms(4) this]
    have "bytesUp (seriesFast s2) = pushed (pushed (bytesUp (seriesFast s)) [bu1]) [bu2]"
      "bytesDown (seriesFast s2) = pushed (pushed (bytesDown (seriesFast s)) [bd1]) [bd2]"
      "connectingClients (seriesFast s2) =
         pushed (pushed (connectingClients (seriesFast s)) [cg1]) [cg2]"
      "connectedClients (seriesFast s2) =
         pushed (pushed (connectedClients (seriesFast s)) [cd1]) [cd2]"
      using first second by simp_all
    with first second show ?thesis
      by (simp add: pushed_two len)
  qed
  from pushes pair show ?thesis by blast
qed

theorem every_tick_pushes_witness:
  "ActivityStats_init 0 =
     Inr \<lparr> startTime = 0, lastUpdate = 0, totalBytesUp = 0, totalBytesDown = 0,
           currentConnectingClients = 0, currentConnectedClients = 0,
           seriesFast =
             \<lparr> msBucketPeriod = 1000, numBuckets = 288,
               bytesUp = replicate 288 0, bytesDown = replicate 288 0,
               connectingClients = replicate 288 0,
               connectedClients = replicate 288 0 \<rparr> \<rparr> \<and>
   update \<lparr> startTime = 0, lastUpdate = 0, totalBytesUp = 0, totalBytesDown = 0,
           currentConnectingClients = 0, currentConnectedClients = 0,
           seriesFast =
             \<lparr> msBucketPeriod = 1000, numBuckets = 288,
               bytesUp = replicate 288 0, bytesDown = replicate 288 0,
               connectingClients = replicate 288 0,
               connectedClients = replicate 288 0 \<rparr> \<rparr> (1 / 10) 5 6 1 2 =
     Inr \<lparr> startTime = 0, lastUpdate = 1 / 10, totalBytesUp = 5, totalBytesDown = 6,
           currentConnectingClients = 1, currentConnectedClients = 2,
           seriesFast =
             \<lparr> msBucketPeriod = 1000, numBuckets = 288,
               bytesUp = replicate 287 0 @ [5], bytesDown = replicate 287 0 @ [6],
               connectingClients = replicate 287 0 @ [1],
               connectedClients = replicate 287 0 @ [2] \<rparr> \<rparr> \<and>
   update \<lparr> startTime = 0, lastUpdate = 1 / 10, totalBytesUp = 5, totalBytesDown = 6,
           currentConnectingClients = 1, currentConnectedClients = 2,
           seriesFast =
             \<lparr> msBucketPeriod = 1000, numBuckets = 288,
               bytesUp = replicate 287 0 @ [5], bytesDown = replicate 287 0 @ [6],
               connectingClients = replicate 287 0 @ [1],
               connectedClients = replicate 287 0 @ [2] \<rparr> \<rparr> (1 / 5) 7 8 3 4 =
     Inr \<lparr> startTime = 0, lastUpdate = 1 / 5, totalBytesUp = 12, totalBytesDown = 14,
           currentConnectingClients = 3, currentConnectedClients = 4,
           seriesFast =
             \<lparr> msBucketPeriod = 1000, numBuckets = 288,
               bytesUp = replicate 286 0 @ [5, 7], bytesDown = replicate 286 0 @ [6, 8],
               connectingClients = replicate 286 0 @ [1, 3],
               connectedClients = replicate 286 0 @ [2, 4] \<rparr> \<rparr> \<and>
   (1 / 10 - 0 < (3 / 2 :: rat)) \<and> (1 / 5 - 1 / 10 < (3 / 2 :: rat)) \<and>
   replicate 286 0 @ [5, 7 :: int] = drop 2 (replicate 288 0) @ [5, 7]"
proof -
  let ?s0 = "\<lparr> startTime = 0, lastUpdate = 0, totalBytesUp = 0, totalBytesDown = 0,
           currentConnectingClients = 0, currentConnectedClients = 0,
           seriesFast =
             \<lparr> msBucketPeriod = 1000, numBuckets = 288,
               bytesUp = replicate 288 0, bytesDown = replicate 288 0,
               connectingClients = replicate 288 0,
               connectedClients = replicate 288 0 \<rparr> \<rparr>"
  let ?s1 = "\<lparr> startTime = 0, lastUpdate = 1 / 10, totalBytesUp = 5, totalBytesDown = 6,
           currentConnectingClients = 1, currentConnectedClients = 2,
           seriesFast =
             \<lparr> msBucketPeriod = 1000, numBuckets = 288,
               bytesUp = replicate 287 0 @ [5], bytesDown = replicate 287 0 @ [6],
               connectingClients = replicate 287 0 @ [1],
               connectedClients = replicate 287 0 @ [2] \<rparr> \<rparr>"
  let ?s2 = "\<lparr> startTime = 0, lastUpdate = 1 / 5, totalBytesUp = 12, totalBytesDown = 14,
           currentConnectingClients = 3, currentConnectedClients = 4,
           seriesFast =
             \<lparr> msBucketPeriod = 1000, numBuckets = 288,
               bytesUp = replicate 286 0 @ [5, 7], bytesDown = replicate 286 0 @ [6, 8],
               connectingClients = replicate 286 0 @ [1, 3],
               connectedClients = replicate 286 0 @ [2, 4] \<rparr> \<rparr>"
  have init: "ActivityStats_init 0 = Inr ?s0"
    by (rule ActivityStats_init_value)
  have run: "updates ?s0 [] = Inr ?s0"
    by simp
  have conf0: "configured ?s0" and conf1: "configured ?s1"
    by (simp_all add: configured_def fixedLength_def)
  have r1: "round_Double (1 / 10 - lastUpdate ?s0) = of_int 0"
    and r2: "round_Double (1 / 5 - lastUpdate ?s1) = of_int 0"
    by (simp_all add: round_Double_def floor_eq_iff)
  have first: "update ?s0 (1 / 10) 5 6 1 2 = Inr ?s1"
    by (subst update_value_seconds [OF conf0 _ _ _ _ r1]) (simp_all add: pushed_def)
  have second: "update ?s1 (1 / 5) 7 8 3 4 = Inr ?s2"
    by (subst update_value_seconds [OF conf1 _ _ _ _ r2]) (simp_all add: pushed_def)
  have close: "1 / 10 - lastUpdate ?s0 < 3 / 2 \<and> 1 / 5 - 1 / 10 < (3 / 2 :: rat)"
    by simp
  from every_tick_pushes [OF init run first second] close
  have "bytesUp (seriesFast ?s2) = drop 2 (bytesUp (seriesFast ?s0)) @ [5, 7]"
    by blast
  then show ?thesis
    using init first second by simp
qed

subsection \<open>Elapsed time in whole seconds\<close>

text \<open>
  Claim C8. In a returning \<open>update\<close> call with \<open>lastUpdate \<le> now\<close>, on stats reached from
  fresh ones, the elapsed time passed to \<open>updateSeries\<close> is \<open>now - lastUpdate\<close> rounded to
  the nearest whole number of seconds (\<open>round\<close>, at most half a second away), times 1000.
  Hence when the elapsed time is a whole number \<open>k\<close> of seconds plus a jitter \<open>j\<close> of less
  than half a second in either direction, the milliseconds passed on are \<open>k * 1000\<close> and
  the gap count is that of \<open>k\<close> seconds exactly, \<open>min 288 (k - 1)\<close>: none for \<open>k = 1\<close>.
\<close>

theorem elapsed_time_rounded:
  assumes "ActivityStats_init t0 = Inr s0" and "updates s0 ticks = Inr s"
    and "lastUpdate s \<le> now" and "update s now bu bd cg cd = Inr s'"
  shows "\<exists>ms. msSinceUpdate now (lastUpdate s) = Inr ms \<and>
           updateSeries (seriesFast s) ms bu bd cg cd = Inr (seriesFast s') \<and>
           uint ms = round (now - lastUpdate s) * 1000 \<and>
           \<bar>of_int (round (now - lastUpdate s)) - (now - lastUpdate s)\<bar> \<le> 1 / 2 \<and>
           (\<forall>k j. now - lastUpdate s = of_int k + j \<and> \<bar>j\<bar> < 1 / 2 \<longrightarrow>
              uint ms = k * 1000 \<and>
              elapsedBucketCount (seriesFast s) ms = Inr (min 288 (k - 1)))"
proof -
  let ?d = "now - lastUpdate s"
  have conf: "configured s"
    using ActivityStats_init_configured [OF assms(1)] assms(2)
    by (rule updates_keeps_configured)
  from update_series [OF conf assms(4)] obtain ms where
    ms: "msSinceUpdate now (lastUpdate s) = Inr ms" and
    series: "updateSeries (seriesFast s) ms bu bd cg cd = Inr (seriesFast s')"
    by blast
  have "0 \<le> ?d" using assms(3) by simp
  then have "round_Double ?d = of_int (round ?d)"
    by (simp add: round_Double_value)
  from msSinceUpdate_InrD [OF ms this]
  have seconds: "uint ms = round ?d * 1000" by simp
  have nearest: "\<bar>of_int (round ?d) - ?d\<bar> \<le> 1 / 2"
    by (rule of_int_round_abs_le)
  have period: "msBucketPeriod (seriesFast s) = 1000" and
    buckets: "numBuckets (seriesFast s) = 288"
    using conf by (simp_all add: configured_def)
  have nonzero: "msBucketPeriod (seriesFast s) \<noteq> 0"
    by (simp add: period)
  have fits: "uint (ms div msBucketPeriod (seriesFast s)) < 2 ^ 63"
    unfolding period by (rule quotient_fits)
  have quotient: "uint (ms div msBucketPeriod (seriesFast s)) = round ?d"
    unfolding period using seconds by (simp add: uint_div)
  have count: "elapsedBucketCount (seriesFast s) ms = Inr (min 288 (round ?d - 1))"
    by (simp add: elapsedBucketCount_value [OF nonzero fits] quotient buckets)
  have jitter: "\<forall>k j. ?d = of_int k + j \<and> \<bar>j\<bar> < 1 / 2 \<longrightarrow>
              uint ms = k * 1000 \<and>
              elapsedBucketCount (seriesFast s) ms = Inr (min 288 (k - 1))"
  proof (intro allI impI)
    fix k :: int and j :: rat
    assume "?d = of_int k + j \<and> \<bar>j\<bar> < 1 / 2"
    then have "round ?d = k"
      using round_jitter [of j k] by simp
    then show "uint ms = k * 1000 \<and>
              elapsedBucketCount (seriesFast s) ms = Inr (min 288 (k - 1))"
      using seconds count by simp
  qed
  from ms series seconds nearest jitter show ?thesis by blast
qed

theorem elapsed_time_rounded_witness:
  "ActivityStats_init 0 =
     Inr \<lparr> startTime = 0, lastUpdate = 0, totalBytesUp = 0, totalBytesDown = 0,
           currentConnectingClients = 0, currentConnectedClients = 0,
           seriesFast =
             \<lparr> msBucketPeriod = 1000, numBuckets = 288,
               bytesUp = replicate 288 0, bytesDown = replicate 288 0,
               connectingClients = replicate 288 0,
               connectedClients = replicate 288 0 \<rparr> \<rparr> \<and>
   update \<lparr> startTime = 0, lastUpdate = 0, totalBytesUp = 0, totalBytesDown = 0,
           currentConnectingClients = 0, currentConnectedClients = 0,
           seriesFast =
             \<lparr> msBucketPeriod = 1000, numBuckets = 288,
               bytesUp = replicate 288 0, bytesDown = replicate 288 0,
               connectingClients = replicate 288 0,
               connectedClients = replicate 288 0 \<rparr> \<rparr> (13 / 10) 5 6 1 2 =
     Inr \<lparr> startTime = 0, lastUpdate = 13 / 10, totalBytesUp = 5, totalBytesDown = 6,
           currentConnectingClients = 1, currentConnectedClients = 2,
           seriesFast =
             \<lparr> msBucketPeriod = 1000, numBuckets = 288,
               bytesUp = replicate 287 0 @ [5], bytesDown = replicate 287 0 @ [6],
               connectingClients = replicate 287 0 @ [1],
               connectedClients = replicate 287 0 @ [2] \<rparr> \<rparr> \<and>
   (0 :: rat) \<le> 13 / 10 \<and>
   (13 / 10 - 0 = of_int 1 + (3 / 10 :: rat)) \<and> \<bar>3 / 10 :: rat\<bar> < 1 / 2 \<and>
   (\<exists>ms. msSinceUpdate (13 / 10) 0 = Inr ms \<and> uint ms = 1 * 1000 \<and>
      elapsedBucketCount
        \<lparr> msBucketPeriod = 1000, numBuckets = 288,
          bytesUp = replicate 288 0, bytesDown = replicate 288 0,
          connectingClients = replicate 288 0,
          connectedClients = replicate 288 0 \<rparr> ms = Inr 0)"
proof -
  let ?s0 = "\<lparr> startTime = 0, lastUpdate = 0, totalBytesUp = 0, totalBytesDown = 0,
           currentConnectingClients = 0, currentConnectedClients = 0,
           seriesFast =
             \<lparr> msBucketPeriod = 1000, numBuckets = 288,
               bytesUp = replicate 288 0, bytesDown = replicate 288 0,
               connectingClients = replicate 288 0,
               connectedClients = replicate 288 0 \<rparr> \<rparr>"
  let ?s1 = "\<lparr> startTime = 0, lastUpdate = 13 / 10, totalBytesUp = 5, totalBytesDown = 6,
           currentConnectingClients = 1, currentConnectedClients = 2,
           seriesFast =
             \<lparr> msBucketPeriod = 1000, numBuckets = 288,
               bytesUp = replicate 287 0 @ [5], bytesDown = replicate 287 0 @ [6],
               connectingClients = replicate 287 0 @ [1],
               connectedClients = replicate 287 0 @ [2] \<rparr> \<rparr>"
  have init: "ActivityStats_init 0 = Inr ?s0"
    by (rule ActivityStats_init_value)
  have run: "updates ?s0 [] = Inr ?s0"
    by simp
  have conf0: "configured ?s0"
    by (simp add: configured_def fixedLength_def)
  have r1: "round_Double (13 / 10 - lastUpdate ?s0) = of_int 1"
    by (simp add: round_Double_def floor_eq_iff)
  have call: "update ?s0 (13 / 10) 5 6 1 2 = Inr ?s1"
    by (subst update_value_seconds [OF conf0 _ _ _ _ r1]) (simp_all add: pushed_def)
  have later: "lastUpdate ?s0 \<le> 13 / 10"
    by simp
  have split: "13 / 10 - lastUpdate ?s0 = of_int 1 + (3 / 10 :: rat) \<and> \<bar>3 / 10 :: rat\<bar> < 1 / 2"
    by simp
  from elapsed_time_rounded [OF init run later call] obtain ms where
    ms: "msSinceUpdate (13 / 10) (lastUpdate ?s0) = Inr ms" and
    jitter: "\<forall>k j. 13 / 10 - lastUpdate ?s0 = of_int k + j \<and> \<bar>j\<bar> < 1 / 2 \<longrightarrow>
              uint ms = k * 1000 \<and>
              elapsedBucketCount (seriesFast ?s0) ms = Inr (min 288 (k - 1))"
    by blast
  from jitter split have "uint ms = 1 * 1000 \<and>
      elapsedBucketCount (seriesFast ?s0) ms = Inr (min 288 (1 - 1))"
    by blast
  with ms have "\<exists>ms. msSinceUpdate (13 / 10) 0 = Inr ms \<and> uint ms = 1 * 1000 \<and>
      elapsedBucketCount (seriesFast ?s0) ms = Inr 0"
    by auto
  then show ?thesis
    using init call by simp
qed

subsection \<open>The manager and its sessions\<close>

lemma msElapsedTime_fresh:
  "lastUpdate s = startTime s \<Longrightarrow> msElapsedTime s = Inr 0"
  by (simp add: msElapsedTime_def UInt64_of_Double_def)

text \<open>
  Claim C9. A start request that is neither refused (a start already in progress, or a
  running session with the same parameters) and whose tunnel start succeeds, on a manager
  whose tunnel and tunnel listener exist together, returns with the status \<open>Started\<close> and
  with \<open>activityStats\<close> a value just built by \<open>ActivityStats()\<close>: totals and client counts
  0, \<open>startTime = lastUpdate = now\<close> (elapsed time 0), 288 zero buckets in every channel.
  The old value was set to \<open>.none\<close> before the tunnel start; there is no other reset.
  Stopping a started session sets \<open>activityStats\<close> to \<open>.none\<close>.
\<close>

theorem session_start_creates_fresh_stats:
  assumes "conduitStatus m \<noteq> Starting"
    and "psiphonTunnel m = (psiphonTunnelListener m \<noteq> None)"
    and "\<not> (conduitStatus m = Started \<and> psiphonTunnelListener m = Some (Some params))"
  shows "\<exists>m' stats.
           startConduit m params reach1 True reach2 now = Inr (Returned m') \<and>
           conduitStatus m' = Started \<and>
           activityStats m' = Some stats \<and>
           ActivityStats_init now = Inr stats \<and>
           stats = \<lparr> startTime = now, lastUpdate = now,
                     totalBytesUp = 0, totalBytesDown = 0,
                     currentConnectingClients = 0, currentConnectedClients = 0,
                     seriesFast =
                       \<lparr> msBucketPeriod = 1000, numBuckets = 288,
                         bytesUp = replicate 288 0, bytesDown = replicate 288 0,
                         connectingClients = replicate 288 0,
                         connectedClients = replicate 288 0 \<rparr> \<rparr> \<and>
           msElapsedTime stats = Inr 0 \<and>
           listenerCalls m' =
             listenerCalls m @
               [OnConduitStatusUpdate Starting reach1, OnConduitStatusUpdate Started reach2,
                OnInproxyProxyActivity stats] \<and>
           (\<forall>r1 r2. \<exists>m''. stopConduit m' r1 r2 = Inr m'' \<and> conduitStatus m'' = Stopped \<and>
              activityStats m'' = None) \<and>
           (\<forall>n r1 r2. conduitStatus n = Started \<and> psiphonTunnel n \<longrightarrow>
              (\<exists>n'. stopConduit n r1 r2 = Inr n' \<and> conduitStatus n' = Stopped \<and>
                 activityStats n' = None))"
proof -
  let ?m1 = "if \<not> psiphonTunnel m
             then m \<lparr> psiphonTunnelListener := Some None, psiphonTunnel := True \<rparr>
             else m"
  have tunnel: "psiphonTunnel ?m1" by simp
  obtain configs where listener: "psiphonTunnelListener ?m1 = Some configs"
    using assms(2) by (cases "psiphonTunnel m") auto
  have status: "conduitStatus ?m1 = conduitStatus m" by simp
  have denied: "(if conduitStatus ?m1 = Started then isEqualConduitParams ?m1 params
                 else Inr False) = Inr False"
    using assms(2,3) by (auto simp: isEqualConduitParams_def split: option.splits)
  show ?thesis
    using assms(1) tunnel listener
    unfolding startConduit_def Let_def denied andThen_Inr
    by (simp add: setConduitStatus_def andThen_Inr ActivityStats_init_value
        stopConduit_def msElapsedTime_fresh)
qed

theorem session_start_creates_fresh_stats_witness:
  "conduitStatus ConduitManager_init \<noteq> Starting \<and>
   psiphonTunnel ConduitManager_init = (psiphonTunnelListener ConduitManager_init \<noteq> None) \<and>
   \<not> (conduitStatus ConduitManager_init = Started \<and>
      psiphonTunnelListener ConduitManager_init = Some (Some \<lparr> privateKey = None, maxClients = 10, limitUpstream = 0, limitDownstream = 0 \<rparr>)) \<and>
   startConduit ConduitManager_init \<lparr> privateKey = None, maxClients = 10, limitUpstream = 0, limitDownstream = 0 \<rparr> None True (Some True) 7 =
     Inr (Returned
       \<lparr> psiphonTunnelListener = Some (Some \<lparr> privateKey = None, maxClients = 10, limitUpstream = 0, limitDownstream = 0 \<rparr>),
         psiphonTunnel = True, conduitStatus = Started,
         activityStats = Some \<lparr> startTime = 7, lastUpdate = 7, totalBytesUp = 0, totalBytesDown = 0,
             currentConnectingClients = 0, currentConnectedClients = 0,
             seriesFast =
               \<lparr> msBucketPeriod = 1000, numBuckets = 288,
                 bytesUp = replicate 288 0, bytesDown = replicate 288 0,
                 connectingClients = replicate 288 0,
                 connectedClients = replicate 288 0 \<rparr> \<rparr>,
         listenerCalls =
           [OnConduitStatusUpdate Starting None, OnConduitStatusUpdate Started (Some True),
            OnInproxyProxyActivity \<lparr> startTime = 7, lastUpdate = 7, totalBytesUp = 0, totalBytesDown = 0,
             currentConnectingClients = 0, currentConnectedClients = 0,
             seriesFast =
               \<lparr> msBucketPeriod = 1000, numBuckets = 288,
                 bytesUp = replicate 288 0, bytesDown = replicate 288 0,
                 connectingClients = replicate 288 0,
                 connectedClients = replicate 288 0 \<rparr> \<rparr>] \<rparr>) \<and>
   stopConduit
       \<lparr> psiphonTunnelListener = Some (Some \<lparr> privateKey = None, maxClients = 10, limitUpstream = 0, limitDownstream = 0 \<rparr>),
         psiphonTunnel = True, conduitStatus = Started,
         activityStats = Some \<lparr> startTime = 7, lastUpdate = 7, totalBytesUp = 0, totalBytesDown = 0,
             currentConnectingClients = 0, currentConnectedClients = 0,
             seriesFast =
               \<lparr> msBucketPeriod = 1000, numBuckets = 288,
                 bytesUp = replicate 288 0, bytesDown = replicate 288 0,
                 connectingClients = replicate 288 0,
                 connectedClients = replicate 288 0 \<rparr> \<rparr>,
         listenerCalls =
           [OnConduitStatusUpdate Starting None, OnConduitStatusUpdate Started (Some True),
            OnInproxyProxyActivity \<lparr> startTime = 7, lastUpdate = 7, totalBytesUp = 0, totalBytesDown = 0,
             currentConnectingClients = 0, currentConnectedClients = 0,
             seriesFast =
               \<lparr> msBucketPeriod = 1000, numBuckets = 288,
                 bytesUp = replicate 288 0, bytesDown = replicate 288 0,
                 connectingClients = replicate 288 0,
                 connectedClients = replicate 288 0 \<rparr> \<rparr>] \<rparr> (Some True) (Some True) =
     Inr \<lparr> psiphonTunnelListener = Some (Some \<lparr> privateKey = None, maxClients = 10, limitUpstream = 0, limitDownstream = 0 \<rparr>),
         psiphonTunnel = True, conduitStatus = Stopped,
         activityStats = None,
         listenerCalls =
           [OnConduitStatusUpdate Starting None, OnConduitStatusUpdate Started (Some True),
            OnInproxyProxyActivity \<lparr> startTime = 7, lastUpdate = 7, totalBytesUp = 0, totalBytesDown = 0,
             currentConnectingClients = 0, currentConnectedClients = 0,
             seriesFast =
               \<lparr> msBucketPeriod = 1000, numBuckets = 288,
                 bytesUp = replicate 288 0, bytesDown = replicate 288 0,
                 connectingClients = replicate 288 0,
                 connectedClients = replicate 288 0 \<rparr> \<rparr>,
            OnConduitStatusUpdate Stopping (Some True),
            OnConduitStatusUpdate Stopped (Some True)] \<rparr>"
proof -
  let ?p = "\<lparr> privateKey = None, maxClients = 10, limitUpstream = 0, limitDownstream = 0 \<rparr>"
  let ?m = "ConduitManager_init"
  have pre: "conduitStatus ?m \<noteq> Starting"
    "psiphonTunnel ?m = (psiphonTunnelListener ?m \<noteq> None)"
    "\<not> (conduitStatus ?m = Started \<and> psiphonTunnelListener ?m = Some (Some ?p))"
    by (simp_all add: ConduitManager_init_def)
  from session_start_creates_fresh_stats [OF pre, of None "Some True" 7]
  obtain m' stats where
    start: "startConduit ?m ?p None True (Some True) 7 = Inr (Returned m')" and
    stats: "activityStats m' = Some stats" "ActivityStats_init 7 = Inr stats" and
    stop: "\<forall>r1 r2. \<exists>m''. stopConduit m' r1 r2 = Inr m'' \<and> conduitStatus m'' = Stopped \<and>
              activityStats m'' = None"
    by blast
  have started: "startConduit ?m ?p None True (Some True) 7 =
     Inr (Returned
       \<lparr> psiphonTunnelListener = Some (Some ?p),
         psiphonTunnel = True, conduitStatus = Started,
         activityStats = Some \<lparr> startTime = 7, lastUpdate = 7, totalBytesUp = 0, totalBytesDown = 0,
             currentConnectingClients = 0, currentConnectedClients = 0,
             seriesFast =
               \<lparr> msBucketPeriod = 1000, numBuckets = 288,
                 bytesUp = replicate 288 0, bytesDown = replicate 288 0,
                 connectingClients = replicate 288 0,
                 connectedClients = replicate 288 0 \<rparr> \<rparr>,
         listenerCalls =
           [OnConduitStatusUpdate Starting None, OnConduitStatusUpdate Started (Some True),
            OnInproxyProxyActivity \<lparr> startTime = 7, lastUpdate = 7, totalBytesUp = 0, totalBytesDown = 0,
             currentConnectingClients = 0, currentConnectedClients = 0,
             seriesFast =
               \<lparr> msBucketPeriod = 1000, numBuckets = 288,
                 bytesUp = replicate 288 0, bytesDown = replicate 288 0,
                 connectingClients = replicate 288 0,
                 connectedClients = replicate 288 0 \<rparr> \<rparr>] \<rparr>)"
    by (simp add: startConduit_def ConduitManager_init_def isEqualConduitParams_def
        setConduitStatus_def andThen_Inr ActivityStats_init_value)
  have stopped: "stopConduit
       \<lparr> psiphonTunnelListener = Some (Some ?p),
         psiphonTunnel = True, conduitStatus = Started,
         activityStats = Some \<lparr> startTime = 7, lastUpdate = 7, totalBytesUp = 0, totalBytesDown = 0,
             currentConnectingClients = 0, currentConnectedClients = 0,
             seriesFast =
               \<lparr> msBucketPeriod = 1000, numBuckets = 288,
                 bytesUp = replicate 288 0, bytesDown = replicate 288 0,
                 connectingClients = replicate 288 0,
                 connectedClients = replicate 288 0 \<rparr> \<rparr>,
         listenerCalls =
           [OnConduitStatusUpdate Starting None, OnConduitStatusUpdate Started (Some True),
            OnInproxyProxyActivity \<lparr> startTime = 7, lastUpdate = 7, totalBytesUp = 0, totalBytesDown = 0,
             currentConnectingClients = 0, currentConnectedClients = 0,
             seriesFast =
               \<lparr> msBucketPeriod = 1000, numBuckets = 288,
                 bytesUp = replicate 288 0, bytesDown = replicate 288 0,
                 connectingClients = replicate 288 0,
                 connectedClients = replicate 288 0 \<rparr> \<rparr>] \<rparr> (Some True) (Some True) =
     Inr \<lparr> psiphonTunnelListener = Some (Some ?p),
         psiphonTunnel = True, conduitStatus = Stopped,
         activityStats = None,
         listenerCalls =
           [OnConduitStatusUpdate Starting None, OnConduitStatusUpdate Started (Some True),
            OnInproxyProxyActivity \<lparr> startTime = 7, lastUpdate = 7, totalBytesUp = 0, totalBytesDown = 0,
             currentConnectingClients = 0, currentConnectedClients = 0,
             seriesFast =
               \<lparr> msBucketPeriod = 1000, numBuckets = 288,
                 bytesUp = replicate 288 0, bytesDown = replicate 288 0,
                 connectingClients = replicate 288 0,
                 connectedClients = replicate 288 0 \<rparr> \<rparr>,
            OnConduitStatusUpdate Stopping (Some True),
            OnConduitStatusUpdate Stopped (Some True)] \<rparr>"
    by (simp add: stopConduit_def setConduitStatus_def andThen_Inr)
  from start stats stop started stopped pre show ?thesis
    by simp
qed

text \<open>
  Claim C10. While \<open>activityStats\<close> is \<open>.none\<close>, \<open>updateActivityStats\<close> returns the manager
  as it was: no field changes and no call is made on the listener. \<open>activityStats\<close> is
  \<open>.none\<close> in a new manager, after the stop of a started session, and after a start that
  failed.
\<close>

theorem ticks_outside_session_dropped:
  "(activityStats m = None \<longrightarrow> updateActivityStats m now cg cd bu bd = Inr m) \<and>
   activityStats ConduitManager_init = None \<and>
   (conduitStatus m = Started \<and> psiphonTunnel m \<longrightarrow>
      (\<exists>m'. stopConduit m reach1 reach2 = Inr m' \<and> activityStats m' = None)) \<and>
   (startConduit m params reach1 False reach2 now = Inr (Threw m') \<longrightarrow>
      activityStats m' = None)"
proof (intro conjI impI)
  assume "activityStats m = None"
  then show "updateActivityStats m now cg cd bu bd = Inr m"
    by (simp add: updateActivityStats_def)
next
  show "activityStats ConduitManager_init = None"
    by (simp add: ConduitManager_init_def)
next
  assume "conduitStatus m = Started \<and> psiphonTunnel m"
  then show "\<exists>m'. stopConduit m reach1 reach2 = Inr m' \<and> activityStats m' = None"
    by (simp add: stopConduit_def setConduitStatus_def andThen_Inr)
next
  assume "startConduit m params reach1 False reach2 now = Inr (Threw m')"
  then show "activityStats m' = None"
    by (auto simp: startConduit_def Let_def andThen_eq_Inr setConduitStatus_def
        split: if_splits option.splits)
qed

theorem ticks_outside_session_dropped_witness:
  "activityStats ConduitManager_init = None \<and>
   updateActivityStats ConduitManager_init 1 2 3 400 500 = Inr ConduitManager_init \<and>
   listenerCalls ConduitManager_init = []"
  using ticks_outside_session_dropped [of ConduitManager_init 1 2 3 400 500]
  by (simp add: ConduitManager_init_def)

subsection \<open>The wire format\<close>









end
